theory Spec2Isabelle
  imports Main "HOL-Library.Word" "HOL-Library.AList"
begin

section \<open>Values shared by the packages\<close>

text \<open>
  Go's \<open>int64\<close> and \<open>int8\<close> are machine words; \<open>+\<close> wraps as Go's does.  Go's \<open>int\<close> is
  used in the modelled code only for slice lengths, loop indices below a slice length plus
  the batch size, and counts of deleted objects; these are natural numbers here.
\<close>

type_synonym int64 = "64 word"
type_synonym int8 = "8 word"

text \<open>
  An \<open>error\<close> is the format string and the arguments given to \<open>fmt.Errorf\<close> (or the message
  of an error made by a collaborator, with no argument).  A string built by \<open>fmt.Sprintf\<close>
  is kept in the same unrendered form; \<open>Text\<close> is a plain string, \<open>Text []\<close> the zero value.
\<close>

datatype error = Errorf string "fmtarg list"
and fmtarg = S string | D int64 | N nat | V error | Nil

datatype gostring = Text string | Sprintf string "fmtarg list"

section \<open>Package dto\<close>

record CleansingMessage =
  Type :: string
  ID :: int64

record CleansingResult =
  Type :: string
  ID :: int64
  Success :: bool
  Message :: gostring
  FilesDeleted :: nat
  Error :: gostring

text \<open>
  Modelled from the spec: the declaration of \<open>dto.S3Object\<close> that has the fields \<open>Region\<close>
  and \<open>Size\<close> read by \<open>DeleteObjects\<close> and by the cleansing service is not among the
  sources (the declaration present has \<open>Bucket\<close> and \<open>Key\<close> only).  The spec's
  StorageObjectRef is \<open>{region: string (empty = default region), bucket: string,
  key: string, size: integer}\<close>.
\<close>

record S3Object =
  Bucket :: string
  Key :: string
  Region :: string
  Size :: int64

definition CleansingTypeContractor :: string where
  "CleansingTypeContractor = ''contractor''"

definition CleansingTypeProject :: string where
  "CleansingTypeProject = ''project''"

definition CleansingTypeSite :: string where
  "CleansingTypeSite = ''site''"

definition IsValidType :: "CleansingMessage \<Rightarrow> bool" where
  "IsValidType cm =
     (if CleansingMessage.Type cm = CleansingTypeContractor
         \<or> CleansingMessage.Type cm = CleansingTypeProject
         \<or> CleansingMessage.Type cm = CleansingTypeSite
      then True else False)"

section \<open>Package entity\<close>

text \<open>Of each entity the key columns and the columns the services read.\<close>

record Project =
  Id :: int64
  ContractorId :: int64
  Code :: string

record Site =
  Id :: int64
  Code :: string
  ProjectId :: int64

record DocumentGroup =
  Id :: int64
  SiteId :: int64
  ProcessedName :: string
  Category :: string
  Progress :: int8

record Document =
  Id :: int64
  GroupID :: int64

record File =
  Id :: int64
  DocumentId :: int64
  Size :: int64
  Name :: string

section \<open>Key derivation (file service)\<close>

text \<open>
  \<open>strings.Split(s, sep)\<close> for a separator of one byte: the pieces of \<open>s\<close> between the
  occurrences of the separator, one more piece than there are occurrences.
\<close>

fun strings_Split :: "string \<Rightarrow> char \<Rightarrow> string list" where
  "strings_Split [] sep = [[]]"
| "strings_Split (c # cs) sep =
     (if c = sep then [] # strings_Split cs sep
      else (case strings_Split cs sep of
              [] \<Rightarrow> [[c]]
            | w # ws \<Rightarrow> (c # w) # ws))"

definition buildS3ObjectsFromFile ::
  "Project \<Rightarrow> Site \<Rightarrow> DocumentGroup \<Rightarrow> File \<Rightarrow> S3Object list" where
  "buildS3ObjectsFromFile project site docGroup file =
     (let objects = [];
          needSplit = (Category docGroup = ''Boundary''
                       \<or> Category docGroup = ''LineRoute''
                       \<or> Category docGroup = ''SBEST''
                       \<or> Category docGroup = ''SBP''
                       \<or> Category docGroup = ''SoilSample''
                       \<or> Category docGroup = ''SSS'');
          basePath = Project.Code project @ ''/'' @ Site.Code site @ ''/00_Upload/'';
          fileNameSplit = strings_Split (Name file) (CHR ''/'');
          fileName = (if needSplit \<and> length fileNameSplit \<ge> 2
                      then (fileNameSplit ! 0) @ ''/Raw/'' @ (fileNameSplit ! 1)
                      else Name file);
          s3Key = basePath @ fileName;
          object = \<lparr>Bucket = [], Key = s3Key, Region = [], Size = 0\<rparr>
      in objects @ [object])"

definition buildProcessedS3Objects ::
  "Project \<Rightarrow> Site \<Rightarrow> DocumentGroup \<Rightarrow> S3Object list" where
  "buildProcessedS3Objects project site docGroup =
     (let basePath = Project.Code project @ ''/'' @ Site.Code site @ ''/01_Processed/'';
          mainKey = basePath @ ProcessedName docGroup @ ''.geojson'';
          objects = [\<lparr>Bucket = [], Key = mainKey, Region = [], Size = 0\<rparr>]
      in if Category docGroup = ''RasterD'' \<or> Category docGroup = ''RasterO''
            \<or> Category docGroup = ''Image''
         then objects @ map (\<lambda>fileType.
                \<lparr>Bucket = [], Key = basePath @ ProcessedName docGroup @ fileType,
                 Region = [], Size = 0\<rparr>) [''_B01.tif'', ''_B02.tif'', ''_B03.tif'']
         else objects)"

section \<open>Hierarchy resolver (file service)\<close>

text \<open>
  The repositories are interfaces; the file service only reads through them.  A read is
  a function of its key: the relational store is taken not to change during one
  resolution.  \<open>Inl\<close> is the error of a read that fails.
\<close>

record Repositories =
  projectRepo_GetByContractorID :: "int64 \<Rightarrow> error + Project list"
  projectRepo_GetByID :: "int64 \<Rightarrow> error + Project"
  siteRepo_GetByID :: "int64 \<Rightarrow> error + Site"
  siteRepo_GetByProjectID :: "int64 \<Rightarrow> error + Site list"
  documentGroupRepo_GetBySiteID :: "int64 \<Rightarrow> error + DocumentGroup list"
  documentRepo_GetByGroupID :: "int64 \<Rightarrow> error + Document list"
  fileRepo_GetByDocumentID :: "int64 \<Rightarrow> error + File list"

text \<open>
  The three entry points contain the same nested \<open>for ... range\<close> loops, each appending to
  \<open>allObjects\<close>; a failed read is logged and the loop goes on with \<open>continue\<close>.  One
  function per loop, the accumulator \<open>allObjects\<close> passed along.
\<close>

fun filesLoop ::
  "Project \<Rightarrow> Site \<Rightarrow> DocumentGroup \<Rightarrow> File list \<Rightarrow> S3Object list \<Rightarrow> S3Object list" where
  "filesLoop project site docGroup [] allObjects = allObjects"
| "filesLoop project site docGroup (file # files) allObjects =
     filesLoop project site docGroup files
       (allObjects @ buildS3ObjectsFromFile project site docGroup file)"

fun documentsLoop ::
  "Repositories \<Rightarrow> Project \<Rightarrow> Site \<Rightarrow> DocumentGroup \<Rightarrow> Document list
     \<Rightarrow> S3Object list \<Rightarrow> S3Object list" where
  "documentsLoop fs project site docGroup [] allObjects = allObjects"
| "documentsLoop fs project site docGroup (document # documents) allObjects =
     (case fileRepo_GetByDocumentID fs (Document.Id document) of
        Inl err \<Rightarrow> documentsLoop fs project site docGroup documents allObjects
      | Inr files \<Rightarrow>
          documentsLoop fs project site docGroup documents
            (filesLoop project site docGroup files allObjects))"

fun documentGroupsLoop ::
  "Repositories \<Rightarrow> Project \<Rightarrow> Site \<Rightarrow> DocumentGroup list
     \<Rightarrow> S3Object list \<Rightarrow> S3Object list" where
  "documentGroupsLoop fs project site [] allObjects = allObjects"
| "documentGroupsLoop fs project site (docGroup # documentGroups) allObjects =
     (case documentRepo_GetByGroupID fs (DocumentGroup.Id docGroup) of
        Inl err \<Rightarrow> documentGroupsLoop fs project site documentGroups allObjects
      | Inr documents \<Rightarrow>
          documentGroupsLoop fs project site documentGroups
            (if (Progress docGroup = 40 \<or> Progress docGroup = 11)
                \<and> ProcessedName docGroup \<noteq> []
             then documentsLoop fs project site docGroup documents allObjects
                    @ buildProcessedS3Objects project site docGroup
             else documentsLoop fs project site docGroup documents allObjects))"

fun sitesLoop ::
  "Repositories \<Rightarrow> Project \<Rightarrow> Site list \<Rightarrow> S3Object list \<Rightarrow> S3Object list" where
  "sitesLoop fs project [] allObjects = allObjects"
| "sitesLoop fs project (site # sites) allObjects =
     (case documentGroupRepo_GetBySiteID fs (Site.Id site) of
        Inl err \<Rightarrow> sitesLoop fs project sites allObjects
      | Inr documentGroups \<Rightarrow>
          sitesLoop fs project sites
            (documentGroupsLoop fs project site documentGroups allObjects))"

fun projectsLoop ::
  "Repositories \<Rightarrow> Project list \<Rightarrow> S3Object list \<Rightarrow> S3Object list" where
  "projectsLoop fs [] allObjects = allObjects"
| "projectsLoop fs (project # projects) allObjects =
     (case siteRepo_GetByProjectID fs (Project.Id project) of
        Inl err \<Rightarrow> projectsLoop fs projects allObjects
      | Inr sites \<Rightarrow> projectsLoop fs projects (sitesLoop fs project sites allObjects))"

definition GetContractorFiles :: "Repositories \<Rightarrow> int64 \<Rightarrow> error + S3Object list" where
  "GetContractorFiles fs contractorID =
     (case projectRepo_GetByContractorID fs contractorID of
        Inl err \<Rightarrow>
          Inl (Errorf ''failed to get projects for contractor %d: %w'' [D contractorID, V err])
      | Inr projects \<Rightarrow> Inr (projectsLoop fs projects []))"

definition GetProjectFiles :: "Repositories \<Rightarrow> int64 \<Rightarrow> error + S3Object list" where
  "GetProjectFiles fs projectID =
     (case projectRepo_GetByID fs projectID of
        Inl err \<Rightarrow> Inl (Errorf ''failed to get project %d: %w'' [D projectID, V err])
      | Inr project \<Rightarrow>
          (case siteRepo_GetByProjectID fs projectID of
             Inl err \<Rightarrow>
               Inl (Errorf ''failed to get sites for project %d: %w'' [D projectID, V err])
           | Inr sites \<Rightarrow> Inr (sitesLoop fs project sites [])))"

definition GetSiteFiles :: "Repositories \<Rightarrow> int64 \<Rightarrow> error + S3Object list" where
  "GetSiteFiles fs siteID =
     (case siteRepo_GetByID fs siteID of
        Inl err \<Rightarrow> Inl (Errorf ''failed to get site %d: %w'' [D siteID, V err])
      | Inr site \<Rightarrow>
          (case projectRepo_GetByID fs (Site.ProjectId site) of
             Inl err \<Rightarrow>
               Inl (Errorf ''failed to get project %d for site %d: %w''
                      [D (Site.ProjectId site), D siteID, V err])
           | Inr project \<Rightarrow>
               (case documentGroupRepo_GetBySiteID fs siteID of
                  Inl err \<Rightarrow>
                    Inl (Errorf ''failed to get document groups for site %d: %w''
                           [D siteID, V err])
                | Inr documentGroups \<Rightarrow>
                    Inr (documentGroupsLoop fs project site documentGroups []))))"

section \<open>Object storage deletion engine (S3 service)\<close>

definition maxDeleteBatchSize :: nat where
  "maxDeleteBatchSize = 1000"

definition maxRetries :: nat where
  "maxRetries = 3"

text \<open>
  \<open>time.Duration\<close> counts nanoseconds in an \<open>int64\<close>.  The only arithmetic on it is
  \<open>time.Duration(attempt+1) * baseDelay\<close> with \<open>attempt \<le> maxRetries\<close>, far from the
  range's end, so a duration is an integer here.
\<close>

type_synonym Duration = int

definition Millisecond :: Duration where
  "Millisecond = 1000000"

definition Second :: Duration where
  "Second = 1000 * Millisecond"

definition baseDelay :: Duration where
  "baseDelay = 100 * Millisecond"

definition maxDelay :: Duration where
  "maxDelay = 5 * Second"

text \<open>
  The storage backend, the rate limiter and the context are collaborators.  What the
  service reads of a \<open>DeleteObjects\<close> response is the list of deleted keys and the list of
  per-key errors (key, code, message); of a listing page, its keys and whether the
  paginator has more pages after it.
\<close>

record DeleteObjectsOutput =
  Deleted :: "string list"
  Errors :: "(string \<times> string \<times> string) list"

record ListObjectsV2Page =
  Contents :: "string list"
  HasMorePages :: bool

text \<open>
  Every call to a collaborator is recorded with its answer, in the order the calls are
  made.  A client is named by its region, the default client \<open>s3s.client\<close> by the empty
  string.  \<open>After d r\<close> is the \<open>select\<close> between \<open>ctx.Done()\<close> and \<open>time.After(d)\<close>: \<open>r\<close> is
  \<open>ctx.Err()\<close> when the context is done first.
\<close>

datatype s3_event =
    Wait "error option"
  | LoadDefaultConfig string "error option"
  | DeleteObjectsCall string string "string list" "error + DeleteObjectsOutput"
  | NextPage string "error + ListObjectsV2Page"
  | DeleteBucketCall string "error option"
  | After Duration "error option"

text \<open>
  A collaborator answers a call from the calls made so far and the call's arguments, so
  that the same call may fail once and succeed when repeated.
\<close>

record S3Backend =
  rateLimiter_Wait :: "s3_event list \<Rightarrow> error option"
  config_LoadDefaultConfig :: "s3_event list \<Rightarrow> string \<Rightarrow> error option"
  client_DeleteObjects ::
    "s3_event list \<Rightarrow> string \<Rightarrow> string \<Rightarrow> string list \<Rightarrow> error + DeleteObjectsOutput"
  paginator_NextPage :: "s3_event list \<Rightarrow> string \<Rightarrow> error + ListObjectsV2Page"
  client_DeleteBucket :: "s3_event list \<Rightarrow> string \<Rightarrow> error option"
  ctx_Done :: "s3_event list \<Rightarrow> Duration \<Rightarrow> error option"

text \<open>The service's mutable state: the cache of region clients, and the calls made.\<close>

record S3ServiceImpl =
  regionClients :: "string list"
  events :: "s3_event list"

definition emit :: "S3ServiceImpl \<Rightarrow> s3_event \<Rightarrow> S3ServiceImpl" where
  "emit s3s e = s3s\<lparr>events := events s3s @ [e]\<rparr>"

definition getClientForRegion ::
  "S3Backend \<Rightarrow> string \<Rightarrow> S3ServiceImpl \<Rightarrow> (error + string) \<times> S3ServiceImpl" where
  "getClientForRegion env region s3s =
     (if region = [] then (Inr [], s3s)
      else if region \<in> set (regionClients s3s) then (Inr region, s3s)
      else (case config_LoadDefaultConfig env (events s3s) region of
              Some err \<Rightarrow>
                (Inl (Errorf ''failed to create config for region %s: %w'' [S region, V err]),
                 emit s3s (LoadDefaultConfig region (Some err)))
            | None \<Rightarrow>
                (Inr region,
                 (emit s3s (LoadDefaultConfig region None))
                   \<lparr>regionClients := regionClients s3s @ [region]\<rparr>)))"

definition deleteBatchWithClient ::
  "S3Backend \<Rightarrow> string \<Rightarrow> string \<Rightarrow> S3Object list \<Rightarrow> S3ServiceImpl
     \<Rightarrow> (nat \<times> error option) \<times> S3ServiceImpl" where
  "deleteBatchWithClient env client bucket objects s3s =
     (if length objects = 0 then ((0, None), s3s)
      else (case client_DeleteObjects env (events s3s) client bucket (map Key objects) of
              Inl err \<Rightarrow>
                ((0, Some (Errorf ''failed to delete objects: %w'' [V err])),
                 emit s3s (DeleteObjectsCall client bucket (map Key objects) (Inl err)))
            | Inr result \<Rightarrow>
                ((length (Deleted result), None),
                 emit s3s (DeleteObjectsCall client bucket (map Key objects) (Inr result)))))"

text \<open>\<open>deleteBatch\<close> has the body of \<open>deleteBatchWithClient\<close>, on the default client.\<close>

definition deleteBatch ::
  "S3Backend \<Rightarrow> string \<Rightarrow> S3Object list \<Rightarrow> S3ServiceImpl
     \<Rightarrow> (nat \<times> error option) \<times> S3ServiceImpl" where
  "deleteBatch env bucket objects s3s = deleteBatchWithClient env [] bucket objects s3s"

text \<open>
  The loop \<open>for i := 0; i < len(objects); i += maxDeleteBatchSize\<close> that
  \<open>deleteBucketObjectsWithClient\<close> and \<open>deleteBucketObjectsOptimized\<close> both contain; they
  differ in the function \<open>del\<close> that deletes one batch \<open>objects[i:end]\<close>.
\<close>

definition slice :: "'a list \<Rightarrow> nat \<Rightarrow> nat \<Rightarrow> 'a list" where
  "slice xs i j = take (j - i) (drop i xs)"

function batchLoop ::
  "(S3Object list \<Rightarrow> S3ServiceImpl \<Rightarrow> (nat \<times> error option) \<times> S3ServiceImpl)
     \<Rightarrow> S3Object list \<Rightarrow> nat \<Rightarrow> nat \<Rightarrow> S3ServiceImpl
     \<Rightarrow> (nat \<times> error option) \<times> S3ServiceImpl" where
  "batchLoop del objects i totalDeleted s3s =
     (if i < length objects then
        (case del (slice objects i
                     (if i + maxDeleteBatchSize > length objects then length objects
                      else i + maxDeleteBatchSize)) s3s of
           ((deleted, Some err), s3s') \<Rightarrow> ((totalDeleted, Some err), s3s')
         | ((deleted, None), s3s') \<Rightarrow>
             batchLoop del objects (i + maxDeleteBatchSize) (totalDeleted + deleted) s3s')
      else ((totalDeleted, None), s3s))"
  by pat_completeness auto
termination
  by (relation "measure (\<lambda>(del, objects, i, totalDeleted, s3s). length objects - i)")
     (auto simp: maxDeleteBatchSize_def)

definition deleteBucketObjectsWithClient ::
  "S3Backend \<Rightarrow> string \<Rightarrow> string \<Rightarrow> S3Object list \<Rightarrow> S3ServiceImpl
     \<Rightarrow> (nat \<times> error option) \<times> S3ServiceImpl" where
  "deleteBucketObjectsWithClient env client bucket objects s3s =
     batchLoop (deleteBatchWithClient env client bucket) objects 0 0 s3s"

text \<open>
  \<open>DeleteObjects\<close> groups the objects in \<open>map[string]map[string][]dto.S3Object\<close>, region
  then bucket.  The maps are association lists in order of first insertion; Go leaves
  the iteration order of a map open.
\<close>

type_synonym regionBucketMap = "(string \<times> (string \<times> S3Object list) list) list"

definition groupObject :: "regionBucketMap \<Rightarrow> S3Object \<Rightarrow> regionBucketMap" where
  "groupObject regionBucketObjects obj =
     (let bucketObjects = (case map_of regionBucketObjects (Region obj) of
                             None \<Rightarrow> [] | Some m \<Rightarrow> m);
          bucketObjs = (case map_of bucketObjects (Bucket obj) of
                          None \<Rightarrow> [] | Some objs \<Rightarrow> objs)
      in AList.update (Region obj)
           (AList.update (Bucket obj) (bucketObjs @ [obj]) bucketObjects)
           regionBucketObjects)"

text \<open>
  The body of one goroutine: it returns its error, and adds to \<open>totalDeleted\<close> only when
  \<open>deleteBucketObjectsWithClient\<close> gave no error.
\<close>

definition deleteGoroutine ::
  "S3Backend \<Rightarrow> string \<Rightarrow> string \<Rightarrow> S3Object list \<Rightarrow> nat \<Rightarrow> S3ServiceImpl
     \<Rightarrow> (error option \<times> nat) \<times> S3ServiceImpl" where
  "deleteGoroutine env region bucket bucketObjs totalDeleted s3s =
     (case getClientForRegion env region s3s of
        (Inl err, s3s1) \<Rightarrow>
          ((Some (Errorf ''failed to get S3 client for region %s: %w'' [S region, V err]),
            totalDeleted), s3s1)
      | (Inr client, s3s1) \<Rightarrow>
          (case deleteBucketObjectsWithClient env client bucket bucketObjs s3s1 of
             ((deleted, Some err), s3s2) \<Rightarrow>
               ((Some (Errorf ''failed to delete objects in bucket %s (region %s): %w''
                         [S bucket, S region, V err]),
                 totalDeleted), s3s2)
           | ((deleted, None), s3s2) \<Rightarrow> ((None, totalDeleted + deleted), s3s2)))"

text \<open>
  The goroutines of the \<open>errgroup\<close> run here one after the other, in the order the loops
  start them: one of the schedules the semaphore of \<open>maxConcurrentDeletes\<close> admits.
  \<open>g.Wait()\<close> gives the first error returned; \<open>firstErr\<close> keeps it.  The group cancels
  the context at the first error; a backend that then refuses the later calls is one
  of the backends, since it answers from the calls made so far.
\<close>

fun bucketsLoop ::
  "S3Backend \<Rightarrow> string \<Rightarrow> (string \<times> S3Object list) list \<Rightarrow> error option \<times> nat
     \<Rightarrow> S3ServiceImpl \<Rightarrow> (error option \<times> nat) \<times> S3ServiceImpl" where
  "bucketsLoop env region [] (firstErr, totalDeleted) s3s = ((firstErr, totalDeleted), s3s)"
| "bucketsLoop env region ((bucket, bucketObjs) # bucketObjects) (firstErr, totalDeleted) s3s =
     (case deleteGoroutine env region bucket bucketObjs totalDeleted s3s of
        ((err, totalDeleted'), s3s') \<Rightarrow>
          bucketsLoop env region bucketObjects
            (case firstErr of None \<Rightarrow> err | Some e \<Rightarrow> Some e, totalDeleted') s3s')"

fun regionsLoop ::
  "S3Backend \<Rightarrow> regionBucketMap \<Rightarrow> error option \<times> nat
     \<Rightarrow> S3ServiceImpl \<Rightarrow> (error option \<times> nat) \<times> S3ServiceImpl" where
  "regionsLoop env [] acc s3s = (acc, s3s)"
| "regionsLoop env ((region, bucketObjects) # regionBucketObjects) acc s3s =
     (case bucketsLoop env region bucketObjects acc s3s of
        (acc', s3s') \<Rightarrow> regionsLoop env regionBucketObjects acc' s3s')"

definition DeleteObjects ::
  "S3Backend \<Rightarrow> S3Object list \<Rightarrow> S3ServiceImpl \<Rightarrow> (nat \<times> error option) \<times> S3ServiceImpl" where
  "DeleteObjects env objects s3s =
     (if length objects = 0 then ((0, None), s3s)
      else (case regionsLoop env (foldl groupObject [] objects) (None, 0) s3s of
              ((None, totalDeleted), s3s') \<Rightarrow> ((totalDeleted, None), s3s')
            | ((Some err, totalDeleted), s3s') \<Rightarrow> ((totalDeleted, Some err), s3s')))"

text \<open>
  The delay before the next attempt, computed in both retry loops as
  \<open>delay := time.Duration(attempt+1) * baseDelay; if delay > maxDelay { delay = maxDelay }\<close>.
\<close>

definition retryDelay :: "nat \<Rightarrow> Duration" where
  "retryDelay attempt =
     (if int (attempt + 1) * baseDelay > maxDelay then maxDelay
      else int (attempt + 1) * baseDelay)"

definition errArg :: "error option \<Rightarrow> fmtarg" where
  "errArg lastErr = (case lastErr of None \<Rightarrow> Nil | Some err \<Rightarrow> V err)"

text \<open>
  \<open>deleteBatchWithRetry\<close>: the loop \<open>for attempt := 0; attempt <= maxRetries; attempt++\<close>,
  with the loop variables \<open>attempt\<close> and \<open>lastErr\<close>.
\<close>

function deleteBatchWithRetry_loop ::
  "S3Backend \<Rightarrow> string \<Rightarrow> S3Object list \<Rightarrow> nat \<Rightarrow> error option \<Rightarrow> S3ServiceImpl
     \<Rightarrow> (nat \<times> error option) \<times> S3ServiceImpl" where
  "deleteBatchWithRetry_loop env bucket objects attempt lastErr s3s =
     (if attempt \<le> maxRetries then
        (case rateLimiter_Wait env (events s3s) of
           Some err \<Rightarrow>
             ((0, Some (Errorf ''rate limiter context cancelled: %w'' [V err])),
              emit s3s (Wait (Some err)))
         | None \<Rightarrow>
             (case deleteBatch env bucket objects (emit s3s (Wait None)) of
                ((deleted, None), s3s1) \<Rightarrow> ((deleted, None), s3s1)
              | ((deleted, Some err), s3s1) \<Rightarrow>
                  (if attempt = maxRetries then
                     ((0, Some (Errorf ''batch delete failed after %d attempts: %w''
                                  [N (maxRetries + 1), V err])), s3s1)
                   else
                     (case ctx_Done env (events s3s1) (retryDelay attempt) of
                        Some cerr \<Rightarrow>
                          ((0, Some cerr), emit s3s1 (After (retryDelay attempt) (Some cerr)))
                      | None \<Rightarrow>
                          deleteBatchWithRetry_loop env bucket objects (attempt + 1) (Some err)
                            (emit s3s1 (After (retryDelay attempt) None))))))
      else ((0, Some (Errorf ''batch delete failed after %d attempts: %w''
                        [N (maxRetries + 1), errArg lastErr])), s3s))"
  by pat_completeness auto
termination
  by (relation "measure (\<lambda>(env, bucket, objects, attempt, lastErr, s3s).
                   Suc maxRetries - attempt)") auto

definition deleteBatchWithRetry ::
  "S3Backend \<Rightarrow> string \<Rightarrow> S3Object list \<Rightarrow> S3ServiceImpl
     \<Rightarrow> (nat \<times> error option) \<times> S3ServiceImpl" where
  "deleteBatchWithRetry env bucket objects s3s =
     deleteBatchWithRetry_loop env bucket objects 0 None s3s"

definition deleteBucketObjectsOptimized ::
  "S3Backend \<Rightarrow> string \<Rightarrow> S3Object list \<Rightarrow> S3ServiceImpl
     \<Rightarrow> (nat \<times> error option) \<times> S3ServiceImpl" where
  "deleteBucketObjectsOptimized env bucket objects s3s =
     (if length objects = 0 then ((0, None), s3s)
      else batchLoop (deleteBatchWithRetry env bucket) objects 0 0 s3s)"

text \<open>
  \<open>deleteAllObjectsInBucket\<close>: the loop \<open>for paginator.HasMorePages()\<close>.  A new paginator
  has more pages; after a page that was read it has more when the page says so.  The
  backend decides when the listing ends, so the loop is a partial function: \<open>None\<close> is a loop
  that never ends.  Each page's keys become objects of the bucket.
\<close>

partial_function (option) deleteAllObjectsInBucket_loop ::
  "S3Backend \<Rightarrow> string \<Rightarrow> nat \<Rightarrow> S3ServiceImpl \<Rightarrow> (error option \<times> S3ServiceImpl) option" where
  "deleteAllObjectsInBucket_loop env bucketName totalDeleted s3s =
     (case rateLimiter_Wait env (events s3s) of
        Some err \<Rightarrow>
          Some (Some (Errorf ''rate limiter context cancelled: %w'' [V err]),
                emit s3s (Wait (Some err)))
      | None \<Rightarrow>
          (case paginator_NextPage env (events (emit s3s (Wait None))) bucketName of
             Inl err \<Rightarrow>
               Some (Some (Errorf ''failed to list objects page: %w'' [V err]),
                     emit (emit s3s (Wait None)) (NextPage bucketName (Inl err)))
           | Inr page \<Rightarrow>
               (if length (Contents page) = 0 then
                  (if HasMorePages page then
                     deleteAllObjectsInBucket_loop env bucketName totalDeleted
                       (emit (emit s3s (Wait None)) (NextPage bucketName (Inr page)))
                   else
                     Some (None, emit (emit s3s (Wait None)) (NextPage bucketName (Inr page))))
                else
                  (case deleteBucketObjectsOptimized env bucketName
                          (map (\<lambda>k. \<lparr>Bucket = bucketName, Key = k, Region = [], Size = 0\<rparr>)
                             (Contents page))
                          (emit (emit s3s (Wait None)) (NextPage bucketName (Inr page))) of
                     ((deleted, Some err), s3s1) \<Rightarrow>
                       Some (Some (Errorf ''failed to delete batch of %d objects: %w''
                                     [N (length (Contents page)), V err]), s3s1)
                   | ((deleted, None), s3s1) \<Rightarrow>
                       (if HasMorePages page then
                          deleteAllObjectsInBucket_loop env bucketName (totalDeleted + deleted) s3s1
                        else Some (None, s3s1))))))"

definition deleteAllObjectsInBucket ::
  "S3Backend \<Rightarrow> string \<Rightarrow> S3ServiceImpl \<Rightarrow> (error option \<times> S3ServiceImpl) option" where
  "deleteAllObjectsInBucket env bucketName s3s =
     deleteAllObjectsInBucket_loop env bucketName 0 s3s"

function deleteBucketWithRetry_loop ::
  "S3Backend \<Rightarrow> string \<Rightarrow> nat \<Rightarrow> error option \<Rightarrow> S3ServiceImpl
     \<Rightarrow> error option \<times> S3ServiceImpl" where
  "deleteBucketWithRetry_loop env bucketName attempt lastErr s3s =
     (if attempt \<le> maxRetries then
        (case rateLimiter_Wait env (events s3s) of
           Some err \<Rightarrow>
             (Some (Errorf ''rate limiter context cancelled: %w'' [V err]),
              emit s3s (Wait (Some err)))
         | None \<Rightarrow>
             (case client_DeleteBucket env (events (emit s3s (Wait None))) bucketName of
                None \<Rightarrow> (None, emit (emit s3s (Wait None)) (DeleteBucketCall bucketName None))
              | Some err \<Rightarrow>
                  (if attempt = maxRetries then
                     (Some (Errorf ''bucket deletion failed after %d attempts: %w''
                              [N (maxRetries + 1), V err]),
                      emit (emit s3s (Wait None)) (DeleteBucketCall bucketName (Some err)))
                   else
                     (case ctx_Done env
                             (events (emit (emit s3s (Wait None))
                                        (DeleteBucketCall bucketName (Some err))))
                             (retryDelay attempt) of
                        Some cerr \<Rightarrow>
                          (Some cerr,
                           emit (emit (emit s3s (Wait None))
                                   (DeleteBucketCall bucketName (Some err)))
                             (After (retryDelay attempt) (Some cerr)))
                      | None \<Rightarrow>
                          deleteBucketWithRetry_loop env bucketName (attempt + 1) (Some err)
                            (emit (emit (emit s3s (Wait None))
                                    (DeleteBucketCall bucketName (Some err)))
                               (After (retryDelay attempt) None))))))
      else (Some (Errorf ''bucket deletion failed after %d attempts: %w''
                    [N (maxRetries + 1), errArg lastErr]), s3s))"
  by pat_completeness auto
termination
  by (relation "measure (\<lambda>(env, bucketName, attempt, lastErr, s3s).
                   Suc maxRetries - attempt)") auto

definition deleteBucketWithRetry ::
  "S3Backend \<Rightarrow> string \<Rightarrow> S3ServiceImpl \<Rightarrow> error option \<times> S3ServiceImpl" where
  "deleteBucketWithRetry env bucketName s3s =
     deleteBucketWithRetry_loop env bucketName 0 None s3s"

definition DeleteBucket ::
  "S3Backend \<Rightarrow> string \<Rightarrow> S3ServiceImpl \<Rightarrow> (error option \<times> S3ServiceImpl) option" where
  "DeleteBucket env bucketName s3s =
     (case deleteAllObjectsInBucket env bucketName s3s of
        None \<Rightarrow> None
      | Some (Some err, s3s1) \<Rightarrow>
          Some (Some (Errorf ''failed to delete objects in bucket %s: %w'' [S bucketName, V err]),
                s3s1)
      | Some (None, s3s1) \<Rightarrow>
          (case deleteBucketWithRetry env bucketName s3s1 of
             (Some err, s3s2) \<Rightarrow>
               Some (Some (Errorf ''failed to delete bucket %s: %w'' [S bucketName, V err]), s3s2)
           | (None, s3s2) \<Rightarrow> Some (None, s3s2)))"

text \<open>The loops are unfolded where a proof asks for it, not by the simplifier on its own.\<close>

declare batchLoop.simps [simp del]
declare deleteBatchWithRetry_loop.simps [simp del]
declare deleteBucketWithRetry_loop.simps [simp del]

section \<open>Cascading deletion orchestrator (cleansing service)\<close>

text \<open>
  The cleansing service calls the S3 service and the repositories through interfaces.
  Each call is recorded, in order; a collaborator answers from the calls made so far and
  the call's arguments.
\<close>

datatype call =
    SiteRepo_GetByID int64
  | S3Service_ListContractorFiles int64
  | S3Service_ListProjectFiles int64
  | S3Service_ListSiteFiles int64
  | S3Service_DeleteObjects "S3Object list"
  | ProjectRepo_GetByContractorID int64
  | SiteRepo_GetByProjectID int64
  | ProjectRepo_UpdateProjectUsage int64 int64
  | FileRepo_HardDeleteBySiteID int64
  | DocumentRepo_HardDeleteBySiteID int64
  | DocumentGroupRepo_HardDeleteBySiteID int64
  | SiteRepo_HardDeleteByProjectID int64
  | SiteRepo_HardDelete int64
  | ProjectRepo_HardDeleteByContractorID int64
  | ProjectRepo_HardDelete int64
  | ContractorRepo_Delete int64

record CleansingServiceImpl =
  cs_siteRepo_GetByID :: "call list \<Rightarrow> int64 \<Rightarrow> error + Site"
  cs_s3Service_ListContractorFiles :: "call list \<Rightarrow> int64 \<Rightarrow> error + S3Object list"
  cs_s3Service_ListProjectFiles :: "call list \<Rightarrow> int64 \<Rightarrow> error + S3Object list"
  cs_s3Service_ListSiteFiles :: "call list \<Rightarrow> int64 \<Rightarrow> error + S3Object list"
  cs_s3Service_DeleteObjects :: "call list \<Rightarrow> S3Object list \<Rightarrow> nat \<times> error option"
  cs_projectRepo_GetByContractorID :: "call list \<Rightarrow> int64 \<Rightarrow> error + Project list"
  cs_siteRepo_GetByProjectID :: "call list \<Rightarrow> int64 \<Rightarrow> error + Site list"
  cs_projectRepo_UpdateProjectUsage :: "call list \<Rightarrow> int64 \<Rightarrow> int64 \<Rightarrow> error option"
  cs_fileRepo_HardDeleteBySiteID :: "call list \<Rightarrow> int64 \<Rightarrow> error option"
  cs_documentRepo_HardDeleteBySiteID :: "call list \<Rightarrow> int64 \<Rightarrow> error option"
  cs_documentGroupRepo_HardDeleteBySiteID :: "call list \<Rightarrow> int64 \<Rightarrow> error option"
  cs_siteRepo_HardDeleteByProjectID :: "call list \<Rightarrow> int64 \<Rightarrow> error option"
  cs_siteRepo_HardDelete :: "call list \<Rightarrow> int64 \<Rightarrow> error option"
  cs_projectRepo_HardDeleteByContractorID :: "call list \<Rightarrow> int64 \<Rightarrow> error option"
  cs_projectRepo_HardDelete :: "call list \<Rightarrow> int64 \<Rightarrow> error option"
  cs_contractorRepo_Delete :: "call list \<Rightarrow> int64 \<Rightarrow> error option"

text \<open>\<open>var totalSize int64; for _, obj := range s3Objects { totalSize += obj.Size }\<close>\<close>

definition totalSizeOf :: "S3Object list \<Rightarrow> int64" where
  "totalSizeOf s3Objects = foldl (\<lambda>totalSize obj. totalSize + S3Object.Size obj) 0 s3Objects"

text \<open>
  The loop \<open>for i := 0; i < deletedCount && i < len(s3Objects); i++\<close> adds the sizes of
  the first \<open>deletedCount\<close> objects.
\<close>

definition calculateSizeForDeletedFiles :: "S3Object list \<Rightarrow> nat \<Rightarrow> int64" where
  "calculateSizeForDeletedFiles s3Objects deletedCount =
     totalSizeOf (take deletedCount s3Objects)"

text \<open>
  The inner loop \<open>for _, site := range sites\<close> of the contractor and project cascades:
  three hard deletes for each site, whose errors are logged and nothing else.
\<close>

fun cascadeSitesLoop :: "CleansingServiceImpl \<Rightarrow> Site list \<Rightarrow> call list \<Rightarrow> call list" where
  "cascadeSitesLoop cs [] calls = calls"
| "cascadeSitesLoop cs (site # sites) calls =
     cascadeSitesLoop cs sites
       (calls @ [FileRepo_HardDeleteBySiteID (Site.Id site),
                 DocumentRepo_HardDeleteBySiteID (Site.Id site),
                 DocumentGroupRepo_HardDeleteBySiteID (Site.Id site)])"

fun cascadeProjectsLoop ::
  "CleansingServiceImpl \<Rightarrow> Project list \<Rightarrow> call list \<Rightarrow> call list" where
  "cascadeProjectsLoop cs [] calls = calls"
| "cascadeProjectsLoop cs (project # projects) calls =
     (case cs_siteRepo_GetByProjectID cs calls (Project.Id project) of
        Inl err \<Rightarrow>
          cascadeProjectsLoop cs projects (calls @ [SiteRepo_GetByProjectID (Project.Id project)])
      | Inr sites \<Rightarrow>
          cascadeProjectsLoop cs projects
            (cascadeSitesLoop cs sites (calls @ [SiteRepo_GetByProjectID (Project.Id project)])
               @ [SiteRepo_HardDeleteByProjectID (Project.Id project)]))"

definition newResult :: "string \<Rightarrow> int64 \<Rightarrow> CleansingResult" where
  "newResult scopeType scopeId =
     \<lparr>Type = scopeType, ID = scopeId, Success = False, Message = Text [], FilesDeleted = 0,
      Error = Text []\<rparr>"

definition DeleteContractorFiles ::
  "CleansingServiceImpl \<Rightarrow> int64 \<Rightarrow> call list
     \<Rightarrow> (CleansingResult \<times> error option) \<times> call list" where
  "DeleteContractorFiles cs contractorID calls =
     (let result = newResult CleansingTypeContractor contractorID;
          calls1 = calls @ [S3Service_ListContractorFiles contractorID]
      in case cs_s3Service_ListContractorFiles cs calls contractorID of
        Inl err \<Rightarrow>
          ((result\<lparr>Error := Sprintf ''failed to list contractor files: %v'' [V err]\<rparr>,
            Some err), calls1)
      | Inr s3Objects \<Rightarrow>
         (let calls2 = calls1 @ [S3Service_DeleteObjects s3Objects]
          in case cs_s3Service_DeleteObjects cs calls1 s3Objects of
            (deletedCount, Some err) \<Rightarrow>
              ((result\<lparr>Error := Sprintf ''failed to delete contractor files: %v'' [V err],
                       FilesDeleted := deletedCount\<rparr>, Some err), calls2)
          | (deletedCount, None) \<Rightarrow>
             (let calls3 = calls2 @ [ProjectRepo_GetByContractorID contractorID]
              in case cs_projectRepo_GetByContractorID cs calls2 contractorID of
                Inl err \<Rightarrow>
                  ((result\<lparr>Error := Sprintf ''failed to get projects for contractor: %v'' [V err],
                           FilesDeleted := deletedCount\<rparr>, Some err), calls3)
              | Inr projects \<Rightarrow>
                 (let calls4 = cascadeProjectsLoop cs projects calls3;
                      calls5 = calls4 @ [ProjectRepo_HardDeleteByContractorID contractorID]
                  in case cs_projectRepo_HardDeleteByContractorID cs calls4 contractorID of
                    Some err \<Rightarrow>
                      ((result\<lparr>Error := Sprintf ''failed to delete project records: %v'' [V err],
                               FilesDeleted := deletedCount\<rparr>, Some err), calls5)
                  | None \<Rightarrow>
                     (let calls6 = calls5 @ [ContractorRepo_Delete contractorID]
                      in case cs_contractorRepo_Delete cs calls5 contractorID of
                        Some err \<Rightarrow>
                          ((result\<lparr>Error :=
                                     Sprintf ''failed to delete contractor record: %v'' [V err],
                                   FilesDeleted := deletedCount\<rparr>, Some err), calls6)
                      | None \<Rightarrow>
                          ((result\<lparr>Success := True, FilesDeleted := deletedCount\<rparr>, None),
                           calls6))))))"

definition DeleteProjectFiles ::
  "CleansingServiceImpl \<Rightarrow> int64 \<Rightarrow> call list
     \<Rightarrow> (CleansingResult \<times> error option) \<times> call list" where
  "DeleteProjectFiles cs projectID calls =
     (let result = newResult CleansingTypeProject projectID;
          calls1 = calls @ [S3Service_ListProjectFiles projectID]
      in case cs_s3Service_ListProjectFiles cs calls projectID of
        Inl err \<Rightarrow>
          ((result\<lparr>Error := Sprintf ''failed to list project files: %v'' [V err]\<rparr>,
            Some err), calls1)
      | Inr s3Objects \<Rightarrow>
         (let calls2 = calls1 @ [S3Service_DeleteObjects s3Objects]
          in case cs_s3Service_DeleteObjects cs calls1 s3Objects of
            (deletedCount, Some err) \<Rightarrow>
              ((result\<lparr>Error := Sprintf ''failed to delete project files: %v'' [V err],
                       FilesDeleted := deletedCount\<rparr>, Some err),
               (if deletedCount > 0
                then calls2 @ [ProjectRepo_UpdateProjectUsage projectID
                                 (- calculateSizeForDeletedFiles s3Objects deletedCount)]
                else calls2))
          | (deletedCount, None) \<Rightarrow>
             (let calls3 = calls2 @ [ProjectRepo_UpdateProjectUsage projectID
                                       (- totalSizeOf s3Objects)];
                  calls4 = calls3 @ [SiteRepo_GetByProjectID projectID]
              in case cs_siteRepo_GetByProjectID cs calls3 projectID of
                Inl err \<Rightarrow>
                  ((result\<lparr>Error := Sprintf ''failed to get sites for project: %v'' [V err],
                           FilesDeleted := deletedCount\<rparr>, Some err), calls4)
              | Inr sites \<Rightarrow>
                 (let calls5 = cascadeSitesLoop cs sites calls4;
                      calls6 = calls5 @ [SiteRepo_HardDeleteByProjectID projectID]
                  in case cs_siteRepo_HardDeleteByProjectID cs calls5 projectID of
                    Some err \<Rightarrow>
                      ((result\<lparr>Error := Sprintf ''failed to delete site records: %v'' [V err],
                               FilesDeleted := deletedCount\<rparr>, Some err), calls6)
                  | None \<Rightarrow>
                     (let calls7 = calls6 @ [ProjectRepo_HardDelete projectID]
                      in case cs_projectRepo_HardDelete cs calls6 projectID of
                        Some err \<Rightarrow>
                          ((result\<lparr>Error :=
                                     Sprintf ''failed to delete project record: %v'' [V err],
                                   FilesDeleted := deletedCount\<rparr>, Some err), calls7)
                      | None \<Rightarrow>
                          ((result\<lparr>Success := True, FilesDeleted := deletedCount\<rparr>, None),
                           calls7))))))"

text \<open>
  The relational cascade of \<open>DeleteSiteFiles\<close>, steps 1 to 4: each step returns at its
  error.
\<close>

definition DeleteSiteFiles_cascade ::
  "CleansingServiceImpl \<Rightarrow> int64 \<Rightarrow> CleansingResult \<Rightarrow> nat \<Rightarrow> call list
     \<Rightarrow> (CleansingResult \<times> error option) \<times> call list" where
  "DeleteSiteFiles_cascade cs siteID result deletedCount calls =
     (let calls1 = calls @ [FileRepo_HardDeleteBySiteID siteID]
      in case cs_fileRepo_HardDeleteBySiteID cs calls siteID of
        Some err \<Rightarrow>
          ((result\<lparr>Error := Sprintf ''failed to delete file records: %v'' [V err],
                   FilesDeleted := deletedCount\<rparr>, Some err), calls1)
      | None \<Rightarrow>
         (let calls2 = calls1 @ [DocumentRepo_HardDeleteBySiteID siteID]
          in case cs_documentRepo_HardDeleteBySiteID cs calls1 siteID of
            Some err \<Rightarrow>
              ((result\<lparr>Error := Sprintf ''failed to delete document records: %v'' [V err],
                       FilesDeleted := deletedCount\<rparr>, Some err), calls2)
          | None \<Rightarrow>
             (let calls3 = calls2 @ [DocumentGroupRepo_HardDeleteBySiteID siteID]
              in case cs_documentGroupRepo_HardDeleteBySiteID cs calls2 siteID of
                Some err \<Rightarrow>
                  ((result\<lparr>Error :=
                             Sprintf ''failed to delete document group records: %v'' [V err],
                           FilesDeleted := deletedCount\<rparr>, Some err), calls3)
              | None \<Rightarrow>
                 (let calls4 = calls3 @ [SiteRepo_HardDelete siteID]
                  in case cs_siteRepo_HardDelete cs calls3 siteID of
                    Some err \<Rightarrow>
                      ((result\<lparr>Error := Sprintf ''failed to delete site record: %v'' [V err],
                               FilesDeleted := deletedCount\<rparr>, Some err), calls4)
                  | None \<Rightarrow>
                      ((result\<lparr>Success := True, FilesDeleted := deletedCount\<rparr>, None),
                       calls4)))))"

definition DeleteSiteFiles ::
  "CleansingServiceImpl \<Rightarrow> int64 \<Rightarrow> call list
     \<Rightarrow> (CleansingResult \<times> error option) \<times> call list" where
  "DeleteSiteFiles cs siteID calls =
     (let result = newResult CleansingTypeSite siteID;
          calls1 = calls @ [SiteRepo_GetByID siteID]
      in case cs_siteRepo_GetByID cs calls siteID of
        Inl err \<Rightarrow>
          ((result\<lparr>Error := Sprintf ''failed to get site information: %v'' [V err]\<rparr>,
            Some err), calls1)
      | Inr site \<Rightarrow>
         (let calls2 = calls1 @ [S3Service_ListSiteFiles siteID]
          in case cs_s3Service_ListSiteFiles cs calls1 siteID of
            Inl err \<Rightarrow>
              ((result\<lparr>Error := Sprintf ''failed to list site files: %v'' [V err]\<rparr>,
                Some err), calls2)
          | Inr s3Objects \<Rightarrow>
             (let calls3 = calls2 @ [S3Service_DeleteObjects s3Objects]
              in case cs_s3Service_DeleteObjects cs calls2 s3Objects of
                (deletedCount, Some err) \<Rightarrow>
                  ((result\<lparr>Error := Sprintf ''failed to delete site files: %v'' [V err],
                           FilesDeleted := deletedCount\<rparr>, Some err), calls3)
              | (deletedCount, None) \<Rightarrow>
                  DeleteSiteFiles_cascade cs siteID result deletedCount
                    (calls3 @ [ProjectRepo_UpdateProjectUsage (Site.ProjectId site)
                                 (- totalSizeOf s3Objects)]))))"

definition ProcessCleansingMessage ::
  "CleansingServiceImpl \<Rightarrow> CleansingMessage \<Rightarrow> call list
     \<Rightarrow> (CleansingResult \<times> error option) \<times> call list" where
  "ProcessCleansingMessage cs message calls =
     (if \<not> IsValidType message then
        ((\<lparr>Type = CleansingMessage.Type message, ID = CleansingMessage.ID message,
           Success = False, Message = Text [], FilesDeleted = 0,
           Error = Sprintf ''invalid cleansing type: %s'' [S (CleansingMessage.Type message)]\<rparr>,
          Some (Errorf ''invalid cleansing type: %s'' [S (CleansingMessage.Type message)])),
         calls)
      else if CleansingMessage.Type message = CleansingTypeContractor then
        DeleteContractorFiles cs (CleansingMessage.ID message) calls
      else if CleansingMessage.Type message = CleansingTypeProject then
        DeleteProjectFiles cs (CleansingMessage.ID message) calls
      else if CleansingMessage.Type message = CleansingTypeSite then
        DeleteSiteFiles cs (CleansingMessage.ID message) calls
      else
        ((\<lparr>Type = CleansingMessage.Type message, ID = CleansingMessage.ID message,
           Success = False, Message = Text [], FilesDeleted = 0,
           Error = Sprintf ''unsupported cleansing type: %s''
                     [S (CleansingMessage.Type message)]\<rparr>,
          Some (Errorf ''unsupported cleansing type: %s'' [S (CleansingMessage.Type message)])),
         calls))"

section \<open>Notions used to state the properties\<close>

text \<open>\<open>strings.Join\<close> with a separator of one byte, the inverse of \<open>strings_Split\<close>.\<close>

fun strings_Join :: "string list \<Rightarrow> char \<Rightarrow> string" where
  "strings_Join [] sep = []"
| "strings_Join [w] sep = w"
| "strings_Join (w # ws) sep = w @ sep # strings_Join ws sep"



text \<open>
  The keys of one branch of the hierarchy, each level from the levels below it; a branch
  whose children cannot be read has no keys.
\<close>

definition documentKeys ::
  "Repositories \<Rightarrow> Project \<Rightarrow> Site \<Rightarrow> DocumentGroup \<Rightarrow> Document \<Rightarrow> S3Object list" where
  "documentKeys fs project site docGroup document =
     (case fileRepo_GetByDocumentID fs (Document.Id document) of
        Inl err \<Rightarrow> []
      | Inr files \<Rightarrow> concat (map (buildS3ObjectsFromFile project site docGroup) files))"

definition groupKeys ::
  "Repositories \<Rightarrow> Project \<Rightarrow> Site \<Rightarrow> DocumentGroup \<Rightarrow> S3Object list" where
  "groupKeys fs project site docGroup =
     (case documentRepo_GetByGroupID fs (DocumentGroup.Id docGroup) of
        Inl err \<Rightarrow> []
      | Inr documents \<Rightarrow>
          concat (map (documentKeys fs project site docGroup) documents)
          @ (if (Progress docGroup = 40 \<or> Progress docGroup = 11)
                \<and> ProcessedName docGroup \<noteq> []
             then buildProcessedS3Objects project site docGroup else []))"

definition siteKeys :: "Repositories \<Rightarrow> Project \<Rightarrow> Site \<Rightarrow> S3Object list" where
  "siteKeys fs project site =
     (case documentGroupRepo_GetBySiteID fs (Site.Id site) of
        Inl err \<Rightarrow> []
      | Inr documentGroups \<Rightarrow> concat (map (groupKeys fs project site) documentGroups))"

definition projectKeys :: "Repositories \<Rightarrow> Project \<Rightarrow> S3Object list" where
  "projectKeys fs project =
     (case siteRepo_GetByProjectID fs (Project.Id project) of
        Inl err \<Rightarrow> []
      | Inr sites \<Rightarrow> concat (map (siteKeys fs project) sites))"

text \<open>
  The batches of at most \<open>n\<close> elements a list is cut into, in order; the keys of the
  batch delete calls made on one client and bucket, in the order of the calls; the
  objects of one (region, bucket) partition of a list, in the order of the list.
\<close>

function chunks :: "nat \<Rightarrow> 'a list \<Rightarrow> 'a list list" where
  "chunks n xs = (if n = 0 \<or> xs = [] then [] else take n xs # chunks n (drop n xs))"
  by pat_completeness auto
termination
  by (relation "measure (\<lambda>(n, xs). length xs)") auto

declare chunks.simps [simp del]

definition deleteCalls :: "string \<Rightarrow> string \<Rightarrow> s3_event list \<Rightarrow> string list list" where
  "deleteCalls client bucket evs =
     concat (map (\<lambda>e. case e of
                         DeleteObjectsCall c b keys resp \<Rightarrow>
                           if c = client \<and> b = bucket then [keys] else []
                       | _ \<Rightarrow> []) evs)"

definition bucketPartition :: "S3Object list \<Rightarrow> string \<Rightarrow> string \<Rightarrow> S3Object list" where
  "bucketPartition objects region bucket =
     filter (\<lambda>obj. Region obj = region \<and> Bucket obj = bucket) objects"

text \<open>
  The answers to the batch delete calls made on one client and bucket, in the order of
  the calls; a list of answers in which no answer but the last is an error; and the run
  of one partition: its calls are the first \<open>j\<close> batches of the partition, all of them
  when \<open>ok\<close>, no call follows a failed one, and when batches are left over either the
  last call failed or, no call being made, the configuration of the region failed.
\<close>

definition deleteResponses ::
  "string \<Rightarrow> string \<Rightarrow> s3_event list \<Rightarrow> (error + DeleteObjectsOutput) list" where
  "deleteResponses client bucket evs =
     concat (map (\<lambda>e. case e of
                         DeleteObjectsCall c b keys resp \<Rightarrow>
                           if c = client \<and> b = bucket then [resp] else []
                       | _ \<Rightarrow> []) evs)"

definition stopsAtFailure :: "('a + 'b) list \<Rightarrow> bool" where
  "stopsAtFailure rs = (\<forall>i. Suc i < length rs \<longrightarrow> \<not> isl (rs ! i))"

definition partitionRun ::
  "S3Object list \<Rightarrow> bool \<Rightarrow> s3_event list \<Rightarrow> string \<Rightarrow> string \<Rightarrow> bool" where
  "partitionRun objs ok new c b =
     (\<exists>j. j \<le> length (chunks maxDeleteBatchSize objs)
        \<and> (ok \<longrightarrow> j = length (chunks maxDeleteBatchSize objs))
        \<and> deleteCalls c b new = map (map Key) (take j (chunks maxDeleteBatchSize objs))
        \<and> length (deleteResponses c b new) = j
        \<and> stopsAtFailure (deleteResponses c b new)
        \<and> (j < length (chunks maxDeleteBatchSize objs) \<longrightarrow>
             (if deleteResponses c b new = []
              then \<exists>e. LoadDefaultConfig c (Some e) \<in> set new
              else isl (last (deleteResponses c b new)))))"

text \<open>
  What the grouping map holds for a region and a bucket, and the shape of a map built by
  insertion: no region twice, and no bucket twice under one region.
\<close>

definition lookup2 :: "regionBucketMap \<Rightarrow> string \<Rightarrow> string \<Rightarrow> S3Object list" where
  "lookup2 m region bucket =
     (case map_of m region of
        None \<Rightarrow> []
      | Some bucketObjects \<Rightarrow>
          (case map_of bucketObjects bucket of None \<Rightarrow> [] | Some objs \<Rightarrow> objs))"

definition wf_map :: "regionBucketMap \<Rightarrow> bool" where
  "wf_map m = (distinct (map fst m)
               \<and> list_all (\<lambda>(region, bucketObjects). distinct (map fst bucketObjects)) m)"

text \<open>
  Reading the calls of \<open>DeleteBucket\<close>: the bucket-removal calls; the calls that list or
  delete objects; the answers to the listing calls; the keys listed; the keys sent in
  batch calls that the backend answered without a call-level error; and whether the
  listing was read to its end (the last page read says there are no more).
\<close>

definition is_removal :: "s3_event \<Rightarrow> bool" where
  "is_removal e = (case e of DeleteBucketCall _ _ \<Rightarrow> True | _ \<Rightarrow> False)"

definition is_object_call :: "s3_event \<Rightarrow> bool" where
  "is_object_call e =
     (case e of DeleteObjectsCall _ _ _ _ \<Rightarrow> True | NextPage _ _ \<Rightarrow> True | _ \<Rightarrow> False)"

definition pageResults :: "s3_event list \<Rightarrow> (error + ListObjectsV2Page) list" where
  "pageResults evs = concat (map (\<lambda>e. case e of NextPage _ r \<Rightarrow> [r] | _ \<Rightarrow> []) evs)"

definition listedKeys :: "s3_event list \<Rightarrow> string list" where
  "listedKeys evs =
     concat (map (\<lambda>r. case r of Inl _ \<Rightarrow> [] | Inr page \<Rightarrow> Contents page) (pageResults evs))"

definition acceptedKeys :: "s3_event list \<Rightarrow> string list" where
  "acceptedKeys evs =
     concat (map (\<lambda>e. case e of DeleteObjectsCall _ _ keys (Inr _) \<Rightarrow> keys | _ \<Rightarrow> []) evs)"

definition listingDone :: "s3_event list \<Rightarrow> bool" where
  "listingDone evs =
     (pageResults evs \<noteq> []
      \<and> (case last (pageResults evs) of Inl _ \<Rightarrow> False | Inr page \<Rightarrow> \<not> HasMorePages page))"

section \<open>Collaborators for the examples\<close>

text \<open>
  Collaborators of the cleansing service that never fail: every site belongs to
  project 7, the S3 service lists two objects of 1000 and 500 bytes for every scope and
  deletes every object it is given.
\<close>

definition exampleObjects :: "S3Object list" where
  "exampleObjects =
     [\<lparr>Bucket = ''b'', Key = ''P/S/00_Upload/a.tif'', Region = [], Size = 1000\<rparr>,
      \<lparr>Bucket = ''b'', Key = ''P/S/00_Upload/b.tif'', Region = [], Size = 500\<rparr>]"

definition okCleansingService :: CleansingServiceImpl where
  "okCleansingService =
     \<lparr>cs_siteRepo_GetByID = (\<lambda>calls i. Inr \<lparr>Site.Id = i, Code = ''S'', ProjectId = 7\<rparr>),
      cs_s3Service_ListContractorFiles = (\<lambda>calls i. Inr exampleObjects),
      cs_s3Service_ListProjectFiles = (\<lambda>calls i. Inr exampleObjects),
      cs_s3Service_ListSiteFiles = (\<lambda>calls i. Inr exampleObjects),
      cs_s3Service_DeleteObjects = (\<lambda>calls objects. (length objects, None)),
      cs_projectRepo_GetByContractorID = (\<lambda>calls i. Inr []),
      cs_siteRepo_GetByProjectID = (\<lambda>calls i. Inr []),
      cs_projectRepo_UpdateProjectUsage = (\<lambda>calls i delta. None),
      cs_fileRepo_HardDeleteBySiteID = (\<lambda>calls i. None),
      cs_documentRepo_HardDeleteBySiteID = (\<lambda>calls i. None),
      cs_documentGroupRepo_HardDeleteBySiteID = (\<lambda>calls i. None),
      cs_siteRepo_HardDeleteByProjectID = (\<lambda>calls i. None),
      cs_siteRepo_HardDelete = (\<lambda>calls i. None),
      cs_projectRepo_HardDeleteByContractorID = (\<lambda>calls i. None),
      cs_projectRepo_HardDelete = (\<lambda>calls i. None),
      cs_contractorRepo_Delete = (\<lambda>calls i. None)\<rparr>"


definition exampleProject :: Project where
  "exampleProject = \<lparr>Project.Id = 7, ContractorId = 3, Code = ''P''\<rparr>"

definition exampleSite :: Site where
  "exampleSite = \<lparr>Site.Id = 42, Code = ''S'', ProjectId = 7\<rparr>"

definition exampleGroup :: "string \<Rightarrow> DocumentGroup" where
  "exampleGroup category =
     \<lparr>DocumentGroup.Id = 5, SiteId = 42, ProcessedName = ''mosaic'', Category = category,
      Progress = 40\<rparr>"

definition exampleFile :: "string \<Rightarrow> File" where
  "exampleFile name = \<lparr>File.Id = 9, DocumentId = 8, Size = 1000, Name = name\<rparr>"

text \<open>
  A relational store with unreadable branches.  Contractor 3 has the projects 7 and 8; the
  sites of project 8 cannot be read.  Project 7 has the sites 42, 43 and 44; the document
  groups of site 43 cannot be read.  Site 42 has the group 5 (category Image, progress 40,
  processed name mosaic), with the document 8 of one file, and the group 6; site 44 has
  the group 6 only.  Group 6 has progress 40 and the processed name lines, and its
  documents cannot be read.
\<close>

definition recordNotFound :: error where
  "recordNotFound = Errorf ''record not found'' []"

definition unreadableGroup :: DocumentGroup where
  "unreadableGroup =
     \<lparr>DocumentGroup.Id = 6, SiteId = 44, ProcessedName = ''lines'', Category = ''LineRoute'',
      Progress = 40\<rparr>"

definition exampleRepositories :: Repositories where
  "exampleRepositories =
     \<lparr>projectRepo_GetByContractorID =
        (\<lambda>i. if i = 3 then Inr [exampleProject, \<lparr>Project.Id = 8, ContractorId = 3, Code = ''Q''\<rparr>]
              else Inl recordNotFound),
      projectRepo_GetByID = (\<lambda>i. if i = 7 then Inr exampleProject else Inl recordNotFound),
      siteRepo_GetByID =
        (\<lambda>i. if i = 42 then Inr exampleSite
              else if i = 43 then Inr \<lparr>Site.Id = 43, Code = ''T'', ProjectId = 7\<rparr>
              else if i = 44 then Inr \<lparr>Site.Id = 44, Code = ''U'', ProjectId = 7\<rparr>
              else Inl recordNotFound),
      siteRepo_GetByProjectID =
        (\<lambda>i. if i = 7 then Inr [exampleSite, \<lparr>Site.Id = 43, Code = ''T'', ProjectId = 7\<rparr>,
                                 \<lparr>Site.Id = 44, Code = ''U'', ProjectId = 7\<rparr>]
              else Inl recordNotFound),
      documentGroupRepo_GetBySiteID =
        (\<lambda>i. if i = 42 then Inr [exampleGroup ''Image'', unreadableGroup]
              else if i = 44 then Inr [unreadableGroup]
              else Inl recordNotFound),
      documentRepo_GetByGroupID =
        (\<lambda>i. if i = 5 then Inr [\<lparr>Document.Id = 8, GroupID = 5\<rparr>] else Inl recordNotFound),
      fileRepo_GetByDocumentID =
        (\<lambda>i. if i = 8 then Inr [exampleFile ''a.tif''] else Inl recordNotFound)\<rparr>"

text \<open>The same store, but every site has the given document groups.\<close>

definition groupsRepositories :: "DocumentGroup list \<Rightarrow> Repositories" where
  "groupsRepositories documentGroups =
     exampleRepositories\<lparr>documentGroupRepo_GetBySiteID := (\<lambda>i. Inr documentGroups)\<rparr>"

definition exampleSiteKeys :: "S3Object list" where
  "exampleSiteKeys =
     [\<lparr>Bucket = [], Key = ''P/S/00_Upload/a.tif'', Region = [], Size = 0\<rparr>,
      \<lparr>Bucket = [], Key = ''P/S/01_Processed/mosaic.geojson'', Region = [], Size = 0\<rparr>,
      \<lparr>Bucket = [], Key = ''P/S/01_Processed/mosaic_B01.tif'', Region = [], Size = 0\<rparr>,
      \<lparr>Bucket = [], Key = ''P/S/01_Processed/mosaic_B02.tif'', Region = [], Size = 0\<rparr>,
      \<lparr>Bucket = [], Key = ''P/S/01_Processed/mosaic_B03.tif'', Region = [], Size = 0\<rparr>]"

text \<open>
  Storage backends.  The service starts with no region client and no call made.  The
  rate limiter and the context never stop any of these backends.  \<open>failingBackend\<close>
  refuses every batch delete and every bucket removal; \<open>failAfterFirstBatch\<close> deletes all
  keys of the first batch it is sent and refuses every later batch.
\<close>

definition newS3Service :: S3ServiceImpl where
  "newS3Service = \<lparr>regionClients = [], events = []\<rparr>"

definition slowDown :: error where
  "slowDown = Errorf ''SlowDown'' []"

definition bucketNotEmpty :: error where
  "bucketNotEmpty = Errorf ''BucketNotEmpty'' []"

definition exampleObject :: S3Object where
  "exampleObject = \<lparr>Bucket = ''b'', Key = ''k'', Region = [], Size = 10\<rparr>"

definition failingBackend :: S3Backend where
  "failingBackend =
     \<lparr>rateLimiter_Wait = (\<lambda>h. None),
      config_LoadDefaultConfig = (\<lambda>h region. None),
      client_DeleteObjects = (\<lambda>h client bucket keys. Inl slowDown),
      paginator_NextPage = (\<lambda>h bucket. Inr \<lparr>Contents = [''k''], HasMorePages = False\<rparr>),
      client_DeleteBucket = (\<lambda>h bucket. Some bucketNotEmpty),
      ctx_Done = (\<lambda>h delay. None)\<rparr>"

definition failAfterFirstBatch :: S3Backend where
  "failAfterFirstBatch =
     \<lparr>rateLimiter_Wait = (\<lambda>h. None),
      config_LoadDefaultConfig = (\<lambda>h region. None),
      client_DeleteObjects =
        (\<lambda>h client bucket keys.
           if h = [] then Inr \<lparr>Deleted = keys, Errors = []\<rparr> else Inl slowDown),
      paginator_NextPage = (\<lambda>h bucket. Inr \<lparr>Contents = [], HasMorePages = False\<rparr>),
      client_DeleteBucket = (\<lambda>h bucket. None),
      ctx_Done = (\<lambda>h delay. None)\<rparr>"

text \<open>
  \<open>okBackend\<close> deletes every key it is sent and removes every bucket; its listing has two
  pages, of two keys and of one.  \<open>threeObjects\<close> are two objects of bucket b in the
  default region around one object of another region.
\<close>

definition okBackend :: S3Backend where
  "okBackend =
     \<lparr>rateLimiter_Wait = (\<lambda>h. None),
      config_LoadDefaultConfig = (\<lambda>h region. None),
      client_DeleteObjects = (\<lambda>h client bucket keys. Inr \<lparr>Deleted = keys, Errors = []\<rparr>),
      paginator_NextPage =
        (\<lambda>h bucket. if pageResults h = []
                      then Inr \<lparr>Contents = [''k1'', ''k2''], HasMorePages = True\<rparr>
                      else Inr \<lparr>Contents = [''k3''], HasMorePages = False\<rparr>),
      client_DeleteBucket = (\<lambda>h bucket. None),
      ctx_Done = (\<lambda>h delay. None)\<rparr>"

definition threeObjects :: "S3Object list" where
  "threeObjects =
     [\<lparr>Bucket = ''b'', Key = ''k1'', Region = [], Size = 10\<rparr>,
      \<lparr>Bucket = ''c'', Key = ''k2'', Region = ''eu-west-1'', Size = 20\<rparr>,
      \<lparr>Bucket = ''b'', Key = ''k3'', Region = [], Size = 30\<rparr>]"

text \<open>
  \<open>perKeyErrorBackend\<close> lists one key, answers every batch delete without a call-level
  error but reports each key as not deleted, and refuses to remove the bucket.
\<close>

definition perKeyErrorBackend :: S3Backend where
  "perKeyErrorBackend =
     \<lparr>rateLimiter_Wait = (\<lambda>h. None),
      config_LoadDefaultConfig = (\<lambda>h region. None),
      client_DeleteObjects =
        (\<lambda>h client bucket keys.
           Inr \<lparr>Deleted = [], Errors = map (\<lambda>k. (k, ''AccessDenied'', ''Access Denied'')) keys\<rparr>),
      paginator_NextPage = (\<lambda>h bucket. Inr \<lparr>Contents = [''k''], HasMorePages = False\<rparr>),
      client_DeleteBucket = (\<lambda>h bucket. Some bucketNotEmpty),
      ctx_Done = (\<lambda>h delay. None)\<rparr>"

section \<open>Properties of key derivation\<close>

lemma strings_Split_nonempty: "strings_Split s sep \<noteq> []"
  by (induction s) (auto split: list.splits)

lemma strings_Join_Cons_Cons: "strings_Join ((c # w) # ws) sep = c # strings_Join (w # ws) sep"
  by (cases ws) auto

text \<open>
  The segments are the pieces of the string between the separators: joined again they give
  the string, none contains the separator, and there is one more than separators.
\<close>

lemma strings_Join_Split: "strings_Join (strings_Split s sep) sep = s"
  by (induction s) (auto split: list.splits simp: strings_Split_nonempty strings_Join_Cons_Cons)

lemma strings_Split_no_sep: "w \<in> set (strings_Split s sep) \<Longrightarrow> sep \<notin> set w"
  by (induction s arbitrary: w) (auto split: list.splits if_splits)

lemma strings_Split_length: "length (strings_Split s sep) = Suc (count_list s sep)"
  by (induction s) (auto split: list.splits simp: strings_Split_nonempty)

text \<open>
  C8.  For a file of a document group whose category is one of Boundary, LineRoute, SBEST,
  SBP, SoilSample, SSS, and whose name splits on \<open>/\<close> into at least two segments, the
  one key derived is \<open>{project.code}/{site.code}/00_Upload/{segment0}/Raw/{segment1}\<close>.
  For any other category, or when the split gives fewer than two segments, the key is
  the base path followed by the stored name, unmodified.  The derivation has no failing
  path: it always returns exactly one object.
\<close>

theorem buildS3ObjectsFromFile_key:
  "(Category docGroup \<in> {''Boundary'', ''LineRoute'', ''SBEST'', ''SBP'', ''SoilSample'', ''SSS''}
      \<and> strings_Split (Name file) (CHR ''/'') = segment0 # segment1 # rest
    \<longrightarrow> buildS3ObjectsFromFile project site docGroup file =
          [\<lparr>Bucket = [],
            Key = Project.Code project @ ''/'' @ Site.Code site @ ''/00_Upload/''
                    @ segment0 @ ''/Raw/'' @ segment1,
            Region = [], Size = 0\<rparr>])
   \<and> (Category docGroup \<notin> {''Boundary'', ''LineRoute'', ''SBEST'', ''SBP'', ''SoilSample'', ''SSS''}
        \<or> length (strings_Split (Name file) (CHR ''/'')) < 2
    \<longrightarrow> buildS3ObjectsFromFile project site docGroup file =
          [\<lparr>Bucket = [],
            Key = Project.Code project @ ''/'' @ Site.Code site @ ''/00_Upload/'' @ Name file,
            Region = [], Size = 0\<rparr>])
   \<and> length (buildS3ObjectsFromFile project site docGroup file) = 1"
  by (auto simp: buildS3ObjectsFromFile_def Let_def)

theorem buildS3ObjectsFromFile_key_witness:
  "buildS3ObjectsFromFile exampleProject exampleSite (exampleGroup ''SBP'')
       (exampleFile ''line1/a.sgy/x'')
     = [\<lparr>Bucket = [], Key = ''P/S/00_Upload/line1/Raw/a.sgy'', Region = [], Size = 0\<rparr>]
   \<and> buildS3ObjectsFromFile exampleProject exampleSite (exampleGroup ''SBP'')
       (exampleFile ''a.sgy'')
     = [\<lparr>Bucket = [], Key = ''P/S/00_Upload/a.sgy'', Region = [], Size = 0\<rparr>]
   \<and> buildS3ObjectsFromFile exampleProject exampleSite (exampleGroup ''Vector'')
       (exampleFile ''line1/a.shp'')
     = [\<lparr>Bucket = [], Key = ''P/S/00_Upload/line1/a.shp'', Region = [], Size = 0\<rparr>]"
  using buildS3ObjectsFromFile_key [of "exampleGroup ''SBP''" "exampleFile ''line1/a.sgy/x''"
          "''line1''" "''a.sgy''" "[''x'']" exampleProject exampleSite]
        buildS3ObjectsFromFile_key [of "exampleGroup ''SBP''" "exampleFile ''a.sgy''"
          "[]" "[]" "[]" exampleProject exampleSite]
        buildS3ObjectsFromFile_key [of "exampleGroup ''Vector''" "exampleFile ''line1/a.shp''"
          "[]" "[]" "[]" exampleProject exampleSite]
  by (simp add: exampleGroup_def exampleFile_def exampleProject_def exampleSite_def)

section \<open>Properties of the hierarchy resolver\<close>

lemma filesLoop_eq:
  "filesLoop project site docGroup files allObjects
     = allObjects @ concat (map (buildS3ObjectsFromFile project site docGroup) files)"
  by (induction files arbitrary: allObjects) auto

lemma documentsLoop_eq:
  "documentsLoop fs project site docGroup documents allObjects
     = allObjects @ concat (map (documentKeys fs project site docGroup) documents)"
  by (induction documents arbitrary: allObjects)
     (auto simp: documentKeys_def filesLoop_eq split: sum.splits)

lemma documentGroupsLoop_eq:
  "documentGroupsLoop fs project site documentGroups allObjects
     = allObjects @ concat (map (groupKeys fs project site) documentGroups)"
  by (induction documentGroups arbitrary: allObjects)
     (auto simp: groupKeys_def documentsLoop_eq split: sum.splits)

lemma sitesLoop_eq:
  "sitesLoop fs project sites allObjects
     = allObjects @ concat (map (siteKeys fs project) sites)"
  by (induction sites arbitrary: allObjects)
     (auto simp: siteKeys_def documentGroupsLoop_eq split: sum.splits)

lemma projectsLoop_eq:
  "projectsLoop fs projects allObjects
     = allObjects @ concat (map (projectKeys fs) projects)"
  by (induction projects arbitrary: allObjects)
     (auto simp: projectKeys_def sitesLoop_eq split: sum.splits)

text \<open>The keys of a branch, with the code of the key derivation written out.\<close>

lemma groupKeys_fun:
  "groupKeys fs project site =
     (\<lambda>docGroup.
        case documentRepo_GetByGroupID fs (DocumentGroup.Id docGroup) of
          Inl err \<Rightarrow> []
        | Inr documents \<Rightarrow>
            concat (map (documentKeys fs project site docGroup) documents)
            @ (if (Progress docGroup = 40 \<or> Progress docGroup = 11)
                  \<and> ProcessedName docGroup \<noteq> []
               then \<lparr>Bucket = [],
                      Key = Project.Code project @ ''/'' @ Site.Code site @ ''/01_Processed/''
                              @ ProcessedName docGroup @ ''.geojson'',
                      Region = [], Size = 0\<rparr>
                    # (if Category docGroup \<in> {''RasterD'', ''RasterO'', ''Image''}
                       then map (\<lambda>suffix.
                              \<lparr>Bucket = [],
                               Key = Project.Code project @ ''/'' @ Site.Code site
                                       @ ''/01_Processed/'' @ ProcessedName docGroup @ suffix,
                               Region = [], Size = 0\<rparr>)
                              [''_B01.tif'', ''_B02.tif'', ''_B03.tif'']
                       else [])
               else []))"
  by (rule ext) (simp add: groupKeys_def buildProcessedS3Objects_def Let_def split: sum.splits)

lemma siteKeys_fun:
  "siteKeys fs project =
     (\<lambda>site. case documentGroupRepo_GetBySiteID fs (Site.Id site) of
                Inl err \<Rightarrow> []
              | Inr documentGroups \<Rightarrow> concat (map (groupKeys fs project site) documentGroups))"
  by (rule ext) (simp add: siteKeys_def)

lemma projectKeys_fun:
  "projectKeys fs =
     (\<lambda>project. case siteRepo_GetByProjectID fs (Project.Id project) of
                   Inl err \<Rightarrow> []
                 | Inr sites \<Rightarrow> concat (map (siteKeys fs project) sites))"
  by (rule ext) (simp add: projectKeys_def)

text \<open>
  C7, as stated, fails: the resolution of a site whose document groups cannot be read
  returns an error, not the keys of other branches.
\<close>

theorem GetSiteFiles_groups_unreadable_counterexample:
  "siteRepo_GetByID exampleRepositories 43 = Inr \<lparr>Site.Id = 43, Code = ''T'', ProjectId = 7\<rparr>
   \<and> projectRepo_GetByID exampleRepositories 7 = Inr exampleProject
   \<and> documentGroupRepo_GetBySiteID exampleRepositories 43 = Inl recordNotFound
   \<and> GetSiteFiles exampleRepositories 43
       = Inl (Errorf ''failed to get document groups for site %d: %w'' [D 43, V recordNotFound])"
  by (simp add: GetSiteFiles_def exampleRepositories_def)

text \<open>
  C7, amended.  The reads an entry point makes for its own scope are fatal: the projects
  of the contractor; the project and its sites; the site, its project and its document
  groups.  An entry point returns an error exactly when one of these reads fails.  When
  they succeed it returns the keys of the branches below, in order, and every read that
  fails further down (the sites of a project of the contractor, the document groups of a
  site of the project, the documents of a group, the files of a document) is skipped:
  its branch has no keys and the other branches keep theirs.
\<close>

theorem resolution_skips_failed_branches:
  "(projectRepo_GetByContractorID fs contractorID = Inr projects
      \<longrightarrow> GetContractorFiles fs contractorID = Inr (concat (map (projectKeys fs) projects)))
   \<and> (projectRepo_GetByID fs projectID = Inr project
       \<and> siteRepo_GetByProjectID fs projectID = Inr sites
      \<longrightarrow> GetProjectFiles fs projectID = Inr (concat (map (siteKeys fs project) sites)))
   \<and> (siteRepo_GetByID fs siteID = Inr site
       \<and> projectRepo_GetByID fs (Site.ProjectId site) = Inr siteProject
       \<and> documentGroupRepo_GetBySiteID fs siteID = Inr documentGroups
      \<longrightarrow> GetSiteFiles fs siteID
            = Inr (concat (map (groupKeys fs siteProject site) documentGroups)))
   \<and> (siteRepo_GetByProjectID fs (Project.Id p) = Inl errp \<longrightarrow> projectKeys fs p = [])
   \<and> (documentGroupRepo_GetBySiteID fs (Site.Id s) = Inl errs \<longrightarrow> siteKeys fs p s = [])
   \<and> (documentRepo_GetByGroupID fs (DocumentGroup.Id g) = Inl errg \<longrightarrow> groupKeys fs p s g = [])
   \<and> (fileRepo_GetByDocumentID fs (Document.Id d) = Inl errd \<longrightarrow> documentKeys fs p s g d = [])
   \<and> ((\<exists>e. GetContractorFiles fs contractorID = Inl e)
        = (\<exists>e. projectRepo_GetByContractorID fs contractorID = Inl e))
   \<and> ((\<exists>e. GetProjectFiles fs projectID = Inl e)
        = ((\<exists>e. projectRepo_GetByID fs projectID = Inl e)
           \<or> (\<exists>e. siteRepo_GetByProjectID fs projectID = Inl e)))
   \<and> ((\<exists>e. GetSiteFiles fs siteID = Inl e)
        = ((\<exists>e. siteRepo_GetByID fs siteID = Inl e)
           \<or> (\<exists>site e. siteRepo_GetByID fs siteID = Inr site
                 \<and> projectRepo_GetByID fs (Site.ProjectId site) = Inl e)
           \<or> (\<exists>e. documentGroupRepo_GetBySiteID fs siteID = Inl e)))"
  by (intro conjI)
     (simp_all add: GetContractorFiles_def GetProjectFiles_def GetSiteFiles_def
        projectsLoop_eq sitesLoop_eq documentGroupsLoop_eq
        projectKeys_def siteKeys_def groupKeys_def documentKeys_def split: sum.splits)

theorem resolution_skips_failed_branches_witness:
  "GetContractorFiles exampleRepositories 3 = Inr exampleSiteKeys
   \<and> GetProjectFiles exampleRepositories 7 = Inr exampleSiteKeys
   \<and> GetSiteFiles exampleRepositories 42 = Inr exampleSiteKeys
   \<and> projectKeys exampleRepositories \<lparr>Project.Id = 8, ContractorId = 3, Code = ''Q''\<rparr> = []
   \<and> siteKeys exampleRepositories exampleProject \<lparr>Site.Id = 43, Code = ''T'', ProjectId = 7\<rparr> = []
   \<and> groupKeys exampleRepositories exampleProject exampleSite unreadableGroup = []
   \<and> documentKeys exampleRepositories exampleProject exampleSite unreadableGroup
        \<lparr>Document.Id = 9, GroupID = 6\<rparr> = []"
  using resolution_skips_failed_branches
          [where fs = exampleRepositories and contractorID = 3
             and projects = "[exampleProject, \<lparr>Project.Id = 8, ContractorId = 3, Code = ''Q''\<rparr>]"
             and projectID = 7 and project = exampleProject
             and sites = "[exampleSite, \<lparr>Site.Id = 43, Code = ''T'', ProjectId = 7\<rparr>,
                           \<lparr>Site.Id = 44, Code = ''U'', ProjectId = 7\<rparr>]"
             and siteID = 42 and site = exampleSite and siteProject = exampleProject
             and documentGroups = "[exampleGroup ''Image'', unreadableGroup]"
             and p = "\<lparr>Project.Id = 8, ContractorId = 3, Code = ''Q''\<rparr>"
             and errp = recordNotFound]
        resolution_skips_failed_branches
          [where fs = exampleRepositories and p = exampleProject
             and s = "\<lparr>Site.Id = 43, Code = ''T'', ProjectId = 7\<rparr>" and errs = recordNotFound]
        resolution_skips_failed_branches
          [where fs = exampleRepositories and p = exampleProject and s = exampleSite
             and g = unreadableGroup and errg = recordNotFound
             and d = "\<lparr>Document.Id = 9, GroupID = 6\<rparr>" and errd = recordNotFound]
  by (simp add: exampleRepositories_def exampleProject_def exampleSite_def exampleGroup_def
        exampleFile_def unreadableGroup_def exampleSiteKeys_def
        projectKeys_def siteKeys_def groupKeys_def documentKeys_def
        buildS3ObjectsFromFile_def buildProcessedS3Objects_def Let_def)

text \<open>
  C9, as stated, fails: site 44 has one document group, with progress 40 and a processed
  name, and no processed key is emitted for it, because its documents cannot be read.
\<close>

theorem processed_keys_unreadable_group_counterexample:
  "documentGroupRepo_GetBySiteID exampleRepositories 44 = Inr [unreadableGroup]
   \<and> Progress unreadableGroup = 40
   \<and> ProcessedName unreadableGroup = ''lines''
   \<and> GetSiteFiles exampleRepositories 44 = Inr []"
  by (simp add: GetSiteFiles_def exampleRepositories_def exampleProject_def
        unreadableGroup_def)

text \<open>
  C9, amended.  When the reads an entry point makes for its own scope succeed, its result
  is, for every document group the walk reaches, in order: nothing when the group's
  documents cannot be read, and otherwise the upload keys of the group's documents
  followed by the processed keys of the group.  The processed keys are emitted if and
  only if the progress is 40 or 11 and the processed name is not empty: the key
  \<open>{project.code}/{site.code}/01_Processed/{processedName}.geojson\<close>, and for the
  categories RasterD, RasterO and Image exactly three more, with the suffixes
  \<open>_B01.tif\<close>, \<open>_B02.tif\<close>, \<open>_B03.tif\<close>.  The walk reaches the groups of the site; the
  groups of every site of the project whose groups can be read; the groups of every
  such site of every project of the contractor whose sites can be read.
\<close>

theorem processed_keys_emitted:
  "(let processed = (\<lambda>project site docGroup.
          if (Progress docGroup = 40 \<or> Progress docGroup = 11) \<and> ProcessedName docGroup \<noteq> []
          then \<lparr>Bucket = [],
                 Key = Project.Code project @ ''/'' @ Site.Code site @ ''/01_Processed/''
                         @ ProcessedName docGroup @ ''.geojson'',
                 Region = [], Size = 0\<rparr>
               # (if Category docGroup \<in> {''RasterD'', ''RasterO'', ''Image''}
                  then map (\<lambda>suffix.
                         \<lparr>Bucket = [],
                          Key = Project.Code project @ ''/'' @ Site.Code site
                                  @ ''/01_Processed/'' @ ProcessedName docGroup @ suffix,
                          Region = [], Size = 0\<rparr>)
                         [''_B01.tif'', ''_B02.tif'', ''_B03.tif'']
                  else [])
          else []);
        ofGroup = (\<lambda>project site docGroup.
          case documentRepo_GetByGroupID fs (DocumentGroup.Id docGroup) of
            Inl err \<Rightarrow> []
          | Inr documents \<Rightarrow>
              concat (map (documentKeys fs project site docGroup) documents)
              @ processed project site docGroup);
        ofSite = (\<lambda>project site.
          case documentGroupRepo_GetBySiteID fs (Site.Id site) of
            Inl err \<Rightarrow> []
          | Inr documentGroups \<Rightarrow> concat (map (ofGroup project site) documentGroups));
        ofProject = (\<lambda>project.
          case siteRepo_GetByProjectID fs (Project.Id project) of
            Inl err \<Rightarrow> []
          | Inr sites \<Rightarrow> concat (map (ofSite project) sites))
    in (siteRepo_GetByID fs siteID = Inr site
         \<and> projectRepo_GetByID fs (Site.ProjectId site) = Inr siteProject
         \<and> documentGroupRepo_GetBySiteID fs siteID = Inr documentGroups
        \<longrightarrow> GetSiteFiles fs siteID
              = Inr (concat (map (ofGroup siteProject site) documentGroups)))
     \<and> (projectRepo_GetByID fs projectID = Inr project
         \<and> siteRepo_GetByProjectID fs projectID = Inr sites
        \<longrightarrow> GetProjectFiles fs projectID = Inr (concat (map (ofSite project) sites)))
     \<and> (projectRepo_GetByContractorID fs contractorID = Inr projects
        \<longrightarrow> GetContractorFiles fs contractorID = Inr (concat (map ofProject projects))))"
  unfolding Let_def GetContractorFiles_def GetProjectFiles_def GetSiteFiles_def
    projectsLoop_eq sitesLoop_eq documentGroupsLoop_eq
    projectKeys_fun siteKeys_fun groupKeys_fun
  by (intro conjI impI) simp_all

theorem processed_keys_emitted_witness:
  "GetSiteFiles (groupsRepositories [exampleGroup ''Image'']) 42 = Inr exampleSiteKeys
   \<and> GetSiteFiles (groupsRepositories [(exampleGroup ''Boundary'')\<lparr>Progress := 11\<rparr>]) 42
       = Inr [\<lparr>Bucket = [], Key = ''P/S/00_Upload/a.tif'', Region = [], Size = 0\<rparr>,
              \<lparr>Bucket = [], Key = ''P/S/01_Processed/mosaic.geojson'', Region = [], Size = 0\<rparr>]
   \<and> GetSiteFiles (groupsRepositories [(exampleGroup ''Image'')\<lparr>Progress := 20\<rparr>]) 42
       = Inr [\<lparr>Bucket = [], Key = ''P/S/00_Upload/a.tif'', Region = [], Size = 0\<rparr>]
   \<and> GetSiteFiles (groupsRepositories [(exampleGroup ''Image'')\<lparr>ProcessedName := []\<rparr>]) 42
       = Inr [\<lparr>Bucket = [], Key = ''P/S/00_Upload/a.tif'', Region = [], Size = 0\<rparr>]
   \<and> GetProjectFiles exampleRepositories 7 = Inr exampleSiteKeys
   \<and> GetContractorFiles exampleRepositories 3 = Inr exampleSiteKeys"
proof (intro conjI)
  show "GetSiteFiles (groupsRepositories [exampleGroup ''Image'']) 42 = Inr exampleSiteKeys"
    using processed_keys_emitted
            [where fs = "groupsRepositories [exampleGroup ''Image'']" and siteID = 42
               and site = exampleSite and siteProject = exampleProject
               and documentGroups = "[exampleGroup ''Image'']",
             unfolded Let_def, THEN conjunct1]
    by (simp add: groupsRepositories_def exampleRepositories_def exampleProject_def
          exampleSite_def exampleGroup_def exampleFile_def exampleSiteKeys_def
          documentKeys_def buildS3ObjectsFromFile_def Let_def)
  show "GetSiteFiles (groupsRepositories [(exampleGroup ''Boundary'')\<lparr>Progress := 11\<rparr>]) 42
       = Inr [\<lparr>Bucket = [], Key = ''P/S/00_Upload/a.tif'', Region = [], Size = 0\<rparr>,
              \<lparr>Bucket = [], Key = ''P/S/01_Processed/mosaic.geojson'', Region = [], Size = 0\<rparr>]"
    using processed_keys_emitted
            [where fs = "groupsRepositories [(exampleGroup ''Boundary'')\<lparr>Progress := 11\<rparr>]"
               and siteID = 42 and site = exampleSite and siteProject = exampleProject
               and documentGroups = "[(exampleGroup ''Boundary'')\<lparr>Progress := 11\<rparr>]",
             unfolded Let_def, THEN conjunct1]
    by (simp add: groupsRepositories_def exampleRepositories_def exampleProject_def
          exampleSite_def exampleGroup_def exampleFile_def
          documentKeys_def buildS3ObjectsFromFile_def Let_def)
  show "GetSiteFiles (groupsRepositories [(exampleGroup ''Image'')\<lparr>Progress := 20\<rparr>]) 42
       = Inr [\<lparr>Bucket = [], Key = ''P/S/00_Upload/a.tif'', Region = [], Size = 0\<rparr>]"
    using processed_keys_emitted
            [where fs = "groupsRepositories [(exampleGroup ''Image'')\<lparr>Progress := 20\<rparr>]"
               and siteID = 42 and site = exampleSite and siteProject = exampleProject
               and documentGroups = "[(exampleGroup ''Image'')\<lparr>Progress := 20\<rparr>]",
             unfolded Let_def, THEN conjunct1]
    by (simp add: groupsRepositories_def exampleRepositories_def exampleProject_def
          exampleSite_def exampleGroup_def exampleFile_def
          documentKeys_def buildS3ObjectsFromFile_def Let_def)
  show "GetSiteFiles (groupsRepositories [(exampleGroup ''Image'')\<lparr>ProcessedName := []\<rparr>]) 42
       = Inr [\<lparr>Bucket = [], Key = ''P/S/00_Upload/a.tif'', Region = [], Size = 0\<rparr>]"
    using processed_keys_emitted
            [where fs = "groupsRepositories [(exampleGroup ''Image'')\<lparr>ProcessedName := []\<rparr>]"
               and siteID = 42 and site = exampleSite and siteProject = exampleProject
               and documentGroups = "[(exampleGroup ''Image'')\<lparr>ProcessedName := []\<rparr>]",
             unfolded Let_def, THEN conjunct1]
    by (simp add: groupsRepositories_def exampleRepositories_def exampleProject_def
          exampleSite_def exampleGroup_def exampleFile_def
          documentKeys_def buildS3ObjectsFromFile_def Let_def)
  show "GetProjectFiles exampleRepositories 7 = Inr exampleSiteKeys"
    using processed_keys_emitted
            [where fs = exampleRepositories and projectID = 7 and project = exampleProject
               and sites = "[exampleSite, \<lparr>Site.Id = 43, Code = ''T'', ProjectId = 7\<rparr>,
                             \<lparr>Site.Id = 44, Code = ''U'', ProjectId = 7\<rparr>]",
             unfolded Let_def, THEN conjunct2, THEN conjunct1]
    by (simp add: exampleRepositories_def exampleProject_def
          exampleSite_def exampleGroup_def exampleFile_def unreadableGroup_def
          exampleSiteKeys_def documentKeys_def buildS3ObjectsFromFile_def Let_def)
  show "GetContractorFiles exampleRepositories 3 = Inr exampleSiteKeys"
    using processed_keys_emitted
            [where fs = exampleRepositories and contractorID = 3
               and projects = "[exampleProject,
                                \<lparr>Project.Id = 8, ContractorId = 3, Code = ''Q''\<rparr>]",
             unfolded Let_def, THEN conjunct2, THEN conjunct2]
    by (simp add: exampleRepositories_def exampleProject_def
          exampleSite_def exampleGroup_def exampleFile_def unreadableGroup_def
          exampleSiteKeys_def documentKeys_def buildS3ObjectsFromFile_def Let_def)
qed


section \<open>Properties of the deletion engine\<close>

lemma foldl_groupObject_same:
  "foldl groupObject [(Region obj, [(Bucket obj, acc)])] (replicate n obj)
     = [(Region obj, [(Bucket obj, acc @ replicate n obj)])]"
  by (induction n arbitrary: acc) (simp_all add: groupObject_def replicate_app_Cons_same)

lemma foldl_groupObject_replicate:
  "foldl groupObject [] (replicate (Suc n) obj)
     = [(Region obj, [(Bucket obj, replicate (Suc n) obj)])]"
  using foldl_groupObject_same [of obj "[obj]" n] by (simp add: groupObject_def)

lemma foldl_groupObject_example:
  "foldl groupObject [] (replicate 1001 exampleObject)
     = [([], [(''b'', replicate 1001 exampleObject)])]"
proof -
  have "replicate 1001 exampleObject = replicate (Suc 1000) exampleObject" by simp
  then show ?thesis
    using foldl_groupObject_replicate [of 1000 exampleObject]
    by (simp add: exampleObject_def)
qed

text \<open>
  C1.  The code at the failing input: 1001 objects of one bucket in the default region,
  a backend that confirms the 1000 keys of the first batch and refuses the second.
  \<open>deleteBucketObjectsWithClient\<close> returns the count 1000 with its error, and
  \<open>DeleteObjects\<close>, whose goroutine returns at that error before it adds to
  \<open>totalDeleted\<close>, returns the count 0.
\<close>

theorem DeleteObjects_partial_count_evaluation:
  "fst (deleteBucketObjectsWithClient failAfterFirstBatch [] ''b''
          (replicate 1001 exampleObject) newS3Service)
     = (1000, Some (Errorf ''failed to delete objects: %w'' [V slowDown]))
   \<and> fst (DeleteObjects failAfterFirstBatch (replicate 1001 exampleObject) newS3Service)
     = (0, Some (Errorf ''failed to delete objects in bucket %s (region %s): %w''
                   [S ''b'', S [], V (Errorf ''failed to delete objects: %w'' [V slowDown])]))
   \<and> events (snd (DeleteObjects failAfterFirstBatch (replicate 1001 exampleObject)
                     newS3Service))
     = [DeleteObjectsCall [] ''b'' (replicate 1000 ''k'')
          (Inr \<lparr>Deleted = replicate 1000 ''k'', Errors = []\<rparr>),
        DeleteObjectsCall [] ''b'' [''k''] (Inl slowDown)]"
  unfolding DeleteObjects_def foldl_groupObject_example
  by (simp add: deleteGoroutine_def getClientForRegion_def
        deleteBucketObjectsWithClient_def batchLoop.simps slice_def maxDeleteBatchSize_def
        deleteBatchWithClient_def failAfterFirstBatch_def newS3Service_def emit_def
        exampleObject_def)

lemma chunks_Nil [simp]: "chunks n [] = []"
  by (simp add: chunks.simps)

lemma chunks_Cons: "0 < n \<Longrightarrow> xs \<noteq> [] \<Longrightarrow> chunks n xs = take n xs # chunks n (drop n xs)"
  by (subst chunks.simps) simp

lemma concat_chunks: "0 < n \<Longrightarrow> concat (chunks n xs) = xs"
proof (induction n xs rule: chunks.induct)
  case (1 n xs)
  then show ?case by (cases "xs = []") (simp_all add: chunks_Cons)
qed

lemma chunks_sizes: "c \<in> set (chunks n xs) \<Longrightarrow> 1 \<le> length c \<and> length c \<le> n"
proof (induction n xs rule: chunks.induct)
  case (1 n xs)
  show ?case
  proof (cases "n = 0 \<or> xs = []")
    case True
    with "1.prems" show ?thesis by (auto simp: chunks.simps)
  next
    case False
    with "1.prems" have "c = take n xs \<or> c \<in> set (chunks n (drop n xs))"
      by (simp add: chunks_Cons)
    with False "1.IH" show ?thesis
      by (cases xs) auto
  qed
qed

lemma ceil_div_step:
  fixes m n :: nat
  assumes "0 < n" "0 < m"
  shows "(m + n - 1) div n = Suc ((m - n + n - 1) div n)"
proof (cases "n \<le> m")
  case True
  then have a: "m - n + n - 1 = m - 1" by simp
  from assms have b: "m + n - 1 = (m - 1) + n" by simp
  show ?thesis unfolding a b using assms(1) by (simp only: div_add_self2)
next
  case False
  then have a: "m - n + n - 1 = n - 1" by simp
  have b: "(n - 1) div n = 0" using assms(1) by simp
  have "n * 1 \<le> m + n - 1" using assms by simp
  moreover have "m + n - 1 < n * Suc 1" using False assms by simp
  ultimately have c: "(m + n - 1) div n = 1" by (rule div_nat_eqI)
  show ?thesis unfolding a b c by simp
qed

lemma length_chunks: "0 < n \<Longrightarrow> length (chunks n xs) = (length xs + n - 1) div n"
proof (induction n xs rule: chunks.induct)
  case (1 n xs)
  show ?case
  proof (cases "xs = []")
    case True
    with "1.prems" show ?thesis by simp
  next
    case False
    then have m: "0 < length xs" by simp
    have "length (chunks n xs) = Suc (length (chunks n (drop n xs)))"
      using False "1.prems" by (simp add: chunks_Cons)
    moreover have "length (chunks n (drop n xs)) = (length xs - n + n - 1) div n"
      using "1.IH" "1.prems" False by simp
    ultimately show ?thesis using ceil_div_step [OF "1.prems" m] by simp
  qed
qed

lemma deleteCalls_append [simp]:
  "deleteCalls c b (xs @ ys) = deleteCalls c b xs @ deleteCalls c b ys"
  by (simp add: deleteCalls_def)

lemma deleteCalls_Nil [simp]: "deleteCalls c b [] = []"
  by (simp add: deleteCalls_def)

lemma deleteCalls_Cons_call [simp]:
  "deleteCalls c b (DeleteObjectsCall c' b' keys resp # evs)
     = (if c' = c \<and> b' = b then keys # deleteCalls c b evs else deleteCalls c b evs)"
  by (simp add: deleteCalls_def)

lemma deleteCalls_Cons_config [simp]:
  "deleteCalls c b (LoadDefaultConfig region r # evs) = deleteCalls c b evs"
  by (simp add: deleteCalls_def)

lemma slice_batch:
  "i < length objects \<Longrightarrow>
   slice objects i (if i + maxDeleteBatchSize > length objects then length objects
                    else i + maxDeleteBatchSize)
     = take maxDeleteBatchSize (drop i objects)"
  by (auto simp: slice_def maxDeleteBatchSize_def)

lemma deleteBatchWithClient_nonempty:
  "batch \<noteq> [] \<Longrightarrow>
   deleteBatchWithClient env client bucket batch s =
     (case client_DeleteObjects env (events s) client bucket (map Key batch) of
        Inl err \<Rightarrow>
          ((0, Some (Errorf ''failed to delete objects: %w'' [V err])),
           emit s (DeleteObjectsCall client bucket (map Key batch) (Inl err)))
      | Inr result \<Rightarrow>
          ((length (Deleted result), None),
           emit s (DeleteObjectsCall client bucket (map Key batch) (Inr result))))"
  by (simp add: deleteBatchWithClient_def)

lemma deleteResponses_append [simp]:
  "deleteResponses c b (xs @ ys) = deleteResponses c b xs @ deleteResponses c b ys"
  by (simp add: deleteResponses_def)

lemma deleteResponses_Nil [simp]: "deleteResponses c b [] = []"
  by (simp add: deleteResponses_def)

lemma deleteResponses_Cons_call [simp]:
  "deleteResponses c b (DeleteObjectsCall c' b' keys resp # evs)
     = (if c' = c \<and> b' = b then resp # deleteResponses c b evs else deleteResponses c b evs)"
  by (simp add: deleteResponses_def)

lemma deleteResponses_Cons_config [simp]:
  "deleteResponses c b (LoadDefaultConfig region r # evs) = deleteResponses c b evs"
  by (simp add: deleteResponses_def)

lemma stopsAtFailure_Nil [simp]: "stopsAtFailure []"
  by (simp add: stopsAtFailure_def)

lemma stopsAtFailure_single [simp]: "stopsAtFailure [r]"
  by (simp add: stopsAtFailure_def)

lemma stopsAtFailure_Inr [simp]: "stopsAtFailure (Inr x # rs) = stopsAtFailure rs"
proof
  assume a: "stopsAtFailure (Inr x # rs)"
  show "stopsAtFailure rs"
    unfolding stopsAtFailure_def
  proof (intro allI impI)
    fix i assume "Suc i < length rs"
    then have "Suc (Suc i) < length (Inr x # rs)" by simp
    with a have "\<not> isl ((Inr x # rs) ! Suc i)" unfolding stopsAtFailure_def by blast
    then show "\<not> isl (rs ! i)" by simp
  qed
next
  assume a: "stopsAtFailure rs"
  show "stopsAtFailure (Inr x # rs)"
    unfolding stopsAtFailure_def
  proof (intro allI impI)
    fix i assume i: "Suc i < length (Inr x # rs)"
    show "\<not> isl ((Inr x # rs) ! i)"
    proof (cases i)
      case 0
      then show ?thesis by simp
    next
      case (Suc k)
      with i a show ?thesis by (simp add: stopsAtFailure_def)
    qed
  qed
qed

lemma batchLoop_WithClient_run:
  "batchLoop (deleteBatchWithClient env client bucket) objects i tot s = ((n, err), s') \<Longrightarrow>
   \<exists>new j rs. events s' = events s @ new
      \<and> j \<le> length (chunks maxDeleteBatchSize (drop i objects))
      \<and> (err = None \<longrightarrow> j = length (chunks maxDeleteBatchSize (drop i objects)))
      \<and> (\<forall>c b. deleteCalls c b new =
            (if c = client \<and> b = bucket
             then map (map Key) (take j (chunks maxDeleteBatchSize (drop i objects)))
             else []))
      \<and> length rs = j \<and> stopsAtFailure rs
      \<and> (j < length (chunks maxDeleteBatchSize (drop i objects)) \<longrightarrow>
            rs \<noteq> [] \<and> isl (last rs))
      \<and> (\<forall>c b. deleteResponses c b new = (if c = client \<and> b = bucket then rs else []))"
proof (induction "length objects - i" arbitrary: i tot s rule: less_induct)
  case less
  show ?case
  proof (cases "i < length objects")
    case False
    with less.prems have "s' = s" "err = None" by (simp_all add: batchLoop.simps)
    with False show ?thesis by (intro exI[of _ "[]"] exI[of _ 0]) simp
  next
    case True
    let ?batch = "take maxDeleteBatchSize (drop i objects)"
    let ?rest = "chunks maxDeleteBatchSize (drop (i + maxDeleteBatchSize) objects)"
    have ne: "?batch \<noteq> []" using True by (simp add: maxDeleteBatchSize_def)
    have ch: "chunks maxDeleteBatchSize (drop i objects) = ?batch # ?rest"
      using True by (simp add: chunks_Cons maxDeleteBatchSize_def add.commute)
    let ?resp = "client_DeleteObjects env (events s) client bucket (map Key ?batch)"
    let ?ev = "DeleteObjectsCall client bucket (map Key ?batch) ?resp"
    show ?thesis
    proof (cases ?resp)
      case (Inl e)
      with less.prems True ne have "s' = emit s ?ev" "err \<noteq> None"
        by (auto simp: batchLoop.simps[of _ objects i] slice_batch
              deleteBatchWithClient_nonempty[OF ne])
      then obtain e' where "s' = emit s ?ev" "err = Some e'" by auto
      then show ?thesis
        using Inl
        by (intro exI[of _ "[?ev]"] exI[of _ 1] exI[of _ "[?resp]"]) (simp add: emit_def ch)
    next
      case (Inr out)
      with less.prems True ne have rec:
        "batchLoop (deleteBatchWithClient env client bucket) objects (i + maxDeleteBatchSize)
           (tot + length (Deleted out)) (emit s ?ev) = ((n, err), s')"
        by (simp add: batchLoop.simps[of _ objects i] slice_batch
              deleteBatchWithClient_nonempty[OF ne])
      have "length objects - (i + maxDeleteBatchSize) < length objects - i"
        using True by (simp add: maxDeleteBatchSize_def)
      from less.hyps[OF this rec] obtain new j rs where IH:
        "events s' = events (emit s ?ev) @ new"
        "j \<le> length ?rest"
        "err = None \<longrightarrow> j = length ?rest"
        "\<forall>c b. deleteCalls c b new =
            (if c = client \<and> b = bucket then map (map Key) (take j ?rest) else [])"
        "length rs = j" "stopsAtFailure rs"
        "j < length ?rest \<longrightarrow> rs \<noteq> [] \<and> isl (last rs)"
        "\<forall>c b. deleteResponses c b new = (if c = client \<and> b = bucket then rs else [])"
        by blast
      show ?thesis
        using IH Inr
        by (intro exI[of _ "?ev # new"] exI[of _ "Suc j"] exI[of _ "?resp # rs"])
           (simp add: emit_def ch)
    qed
  qed
qed

lemma getClientForRegion_run:
  "getClientForRegion env region s = (r, s1) \<Longrightarrow>
   \<exists>pre. events s1 = events s @ pre
      \<and> (\<forall>c b. deleteCalls c b pre = [] \<and> deleteResponses c b pre = [])
      \<and> (\<forall>client. r = Inr client \<longrightarrow> client = region)
      \<and> (\<forall>err. r = Inl err \<longrightarrow> (\<exists>e. LoadDefaultConfig region (Some e) \<in> set pre))"
  by (auto simp: getClientForRegion_def emit_def split: if_splits option.splits)

lemma deleteGoroutine_run:
  assumes "deleteGoroutine env region bucket objs tot s = ((err, tot'), s')"
  shows "\<exists>new. events s' = events s @ new
      \<and> partitionRun objs (err = None) new region bucket
      \<and> (\<forall>c b. \<not> (c = region \<and> b = bucket) \<longrightarrow>
             deleteCalls c b new = [] \<and> deleteResponses c b new = [])"
proof -
  obtain r s1 where g: "getClientForRegion env region s = (r, s1)"
    by (cases "getClientForRegion env region s")
  from getClientForRegion_run[OF g] obtain pre where pre:
    "events s1 = events s @ pre"
    "\<forall>c b. deleteCalls c b pre = [] \<and> deleteResponses c b pre = []"
    "\<forall>client. r = Inr client \<longrightarrow> client = region"
    "\<forall>err. r = Inl err \<longrightarrow> (\<exists>e. LoadDefaultConfig region (Some e) \<in> set pre)" by blast
  show ?thesis
  proof (cases r)
    case (Inl e)
    with assms g have "s' = s1" "err \<noteq> None" by (auto simp: deleteGoroutine_def)
    moreover from Inl pre(4) have "\<exists>e. LoadDefaultConfig region (Some e) \<in> set pre" by blast
    ultimately show ?thesis
      using pre(1,2)
      by (intro exI[of _ pre]) (auto simp: partitionRun_def)
  next
    case (Inr client)
    with pre have client: "client = region" by simp
    obtain n derr s2 where d:
      "batchLoop (deleteBatchWithClient env region bucket) objs 0 0 s1 = ((n, derr), s2)"
      by (cases "batchLoop (deleteBatchWithClient env region bucket) objs 0 0 s1") auto
    from batchLoop_WithClient_run[OF d, unfolded drop_0] obtain new j rs where new:
      "events s2 = events s1 @ new"
      "j \<le> length (chunks maxDeleteBatchSize objs)"
      "derr = None \<longrightarrow> j = length (chunks maxDeleteBatchSize objs)"
      "\<forall>c b. deleteCalls c b new =
            (if c = region \<and> b = bucket
             then map (map Key) (take j (chunks maxDeleteBatchSize objs)) else [])"
      "length rs = j" "stopsAtFailure rs"
      "j < length (chunks maxDeleteBatchSize objs) \<longrightarrow> rs \<noteq> [] \<and> isl (last rs)"
      "\<forall>c b. deleteResponses c b new = (if c = region \<and> b = bucket then rs else [])"
      by blast
    from assms g Inr client d have res: "s' = s2" "err = None \<longrightarrow> derr = None"
      by (auto simp: deleteGoroutine_def deleteBucketObjectsWithClient_def split: option.splits)
    have "partitionRun objs (err = None) (pre @ new) region bucket"
      unfolding partitionRun_def
      using pre(2) new res(2) by (intro exI[of _ j]) simp
    with pre(1,2) new(1,4,8) res(1) show ?thesis
      by (intro exI[of _ "pre @ new"]) simp
  qed
qed

lemma partitionRun_emptyD:
  "partitionRun [] ok new c b \<Longrightarrow> deleteCalls c b new = [] \<and> deleteResponses c b new = []"
  unfolding partitionRun_def by simp

lemma partitionRun_emptyI:
  "deleteCalls c b new = [] \<Longrightarrow> deleteResponses c b new = [] \<Longrightarrow> partitionRun [] ok new c b"
  by (simp add: partitionRun_def)

lemma partitionRun_appendL:
  assumes "partitionRun objs ok new1 c b"
    and "deleteCalls c b new2 = []" and "deleteResponses c b new2 = []"
    and "ok' \<longrightarrow> ok"
  shows "partitionRun objs ok' (new1 @ new2) c b"
proof -
  from assms(1) obtain j where j:
    "j \<le> length (chunks maxDeleteBatchSize objs)"
    "ok \<longrightarrow> j = length (chunks maxDeleteBatchSize objs)"
    "deleteCalls c b new1 = map (map Key) (take j (chunks maxDeleteBatchSize objs))"
    "length (deleteResponses c b new1) = j"
    "stopsAtFailure (deleteResponses c b new1)"
    "j < length (chunks maxDeleteBatchSize objs) \<longrightarrow>
       (if deleteResponses c b new1 = []
        then \<exists>e. LoadDefaultConfig c (Some e) \<in> set new1
        else isl (last (deleteResponses c b new1)))"
    unfolding partitionRun_def by blast
  have cfg: "\<exists>e. LoadDefaultConfig c (Some e) \<in> set (new1 @ new2)"
    if "\<exists>e. LoadDefaultConfig c (Some e) \<in> set new1"
    using that by auto
  have calls: "deleteCalls c b (new1 @ new2) = deleteCalls c b new1"
    and resps: "deleteResponses c b (new1 @ new2) = deleteResponses c b new1"
    using assms(2,3) by simp_all
  show ?thesis
    unfolding partitionRun_def calls resps
  proof (intro exI[of _ j] conjI impI)
    show "j \<le> length (chunks maxDeleteBatchSize objs)" by (rule j(1))
    show "j = length (chunks maxDeleteBatchSize objs)" if "ok'" using that j(2) assms(4) by blast
    show "deleteCalls c b new1 = map (map Key) (take j (chunks maxDeleteBatchSize objs))"
      by (rule j(3))
    show "length (deleteResponses c b new1) = j" by (rule j(4))
    show "stopsAtFailure (deleteResponses c b new1)" by (rule j(5))
    show "if deleteResponses c b new1 = []
          then \<exists>e. LoadDefaultConfig c (Some e) \<in> set (new1 @ new2)
          else isl (last (deleteResponses c b new1))"
      if "j < length (chunks maxDeleteBatchSize objs)"
    proof (cases "deleteResponses c b new1 = []")
      case True
      with j(6) that have "\<exists>e. LoadDefaultConfig c (Some e) \<in> set new1" by simp
      from cfg[OF this] True show ?thesis by simp
    next
      case False
      with j(6) that show ?thesis by simp
    qed
  qed
qed

lemma partitionRun_appendR:
  assumes "partitionRun objs ok new2 c b"
    and "deleteCalls c b new1 = []" and "deleteResponses c b new1 = []"
    and "ok' \<longrightarrow> ok"
  shows "partitionRun objs ok' (new1 @ new2) c b"
proof -
  from assms(1) obtain j where j:
    "j \<le> length (chunks maxDeleteBatchSize objs)"
    "ok \<longrightarrow> j = length (chunks maxDeleteBatchSize objs)"
    "deleteCalls c b new2 = map (map Key) (take j (chunks maxDeleteBatchSize objs))"
    "length (deleteResponses c b new2) = j"
    "stopsAtFailure (deleteResponses c b new2)"
    "j < length (chunks maxDeleteBatchSize objs) \<longrightarrow>
       (if deleteResponses c b new2 = []
        then \<exists>e. LoadDefaultConfig c (Some e) \<in> set new2
        else isl (last (deleteResponses c b new2)))"
    unfolding partitionRun_def by blast
  have cfg: "\<exists>e. LoadDefaultConfig c (Some e) \<in> set (new1 @ new2)"
    if "\<exists>e. LoadDefaultConfig c (Some e) \<in> set new2"
    using that by auto
  have calls: "deleteCalls c b (new1 @ new2) = deleteCalls c b new2"
    and resps: "deleteResponses c b (new1 @ new2) = deleteResponses c b new2"
    using assms(2,3) by simp_all
  show ?thesis
    unfolding partitionRun_def calls resps
  proof (intro exI[of _ j] conjI impI)
    show "j \<le> length (chunks maxDeleteBatchSize objs)" by (rule j(1))
    show "j = length (chunks maxDeleteBatchSize objs)" if "ok'" using that j(2) assms(4) by blast
    show "deleteCalls c b new2 = map (map Key) (take j (chunks maxDeleteBatchSize objs))"
      by (rule j(3))
    show "length (deleteResponses c b new2) = j" by (rule j(4))
    show "stopsAtFailure (deleteResponses c b new2)" by (rule j(5))
    show "if deleteResponses c b new2 = []
          then \<exists>e. LoadDefaultConfig c (Some e) \<in> set (new1 @ new2)
          else isl (last (deleteResponses c b new2))"
      if "j < length (chunks maxDeleteBatchSize objs)"
    proof (cases "deleteResponses c b new2 = []")
      case True
      with j(6) that have "\<exists>e. LoadDefaultConfig c (Some e) \<in> set new2" by simp
      from cfg[OF this] True show ?thesis by simp
    next
      case False
      with j(6) that show ?thesis by simp
    qed
  qed
qed

lemma bucketsLoop_run:
  assumes "distinct (map fst bos)"
    and "bucketsLoop env region bos (ferr, tot) s = ((ferr', tot'), s')"
  shows "\<exists>new. events s' = events s @ new \<and> (ferr' = None \<longrightarrow> ferr = None)
      \<and> (\<forall>c b. partitionRun (lookup2 [(region, bos)] c b) (ferr' = None) new c b)"
  using assms
proof (induction bos arbitrary: ferr tot s)
  case Nil
  then show ?case by (intro exI[of _ "[]"]) (simp add: lookup2_def partitionRun_emptyI)
next
  case (Cons p rest)
  obtain bucket objs where p: "p = (bucket, objs)" by (cases p)
  obtain err t1 s1 where g:
    "deleteGoroutine env region bucket objs tot s = ((err, t1), s1)"
    by (cases "deleteGoroutine env region bucket objs tot s") auto
  let ?ferr1 = "case ferr of None \<Rightarrow> err | Some e \<Rightarrow> Some e"
  from Cons.prems(2) p g have rec:
    "bucketsLoop env region rest (?ferr1, t1) s1 = ((ferr', tot'), s')"
    by simp
  from Cons.prems(1) p have d: "distinct (map fst rest)" and fresh: "map_of rest bucket = None"
    by (simp_all add: map_of_eq_None_iff)
  from Cons.IH[OF d rec] obtain new2 where new2:
    "events s' = events s1 @ new2" "ferr' = None \<longrightarrow> ?ferr1 = None"
    "\<forall>c b. partitionRun (lookup2 [(region, rest)] c b) (ferr' = None) new2 c b"
    by blast
  from deleteGoroutine_run[OF g] obtain new1 where new1:
    "events s1 = events s @ new1"
    "partitionRun objs (err = None) new1 region bucket"
    "\<forall>c b. \<not> (c = region \<and> b = bucket) \<longrightarrow>
             deleteCalls c b new1 = [] \<and> deleteResponses c b new1 = []"
    by blast
  from new2(2) have none: "ferr' = None \<longrightarrow> ferr = None \<and> err = None"
    by (auto split: option.splits)
  have "partitionRun (lookup2 [(region, p # rest)] c b) (ferr' = None) (new1 @ new2) c b"
    for c b
  proof (cases "c = region \<and> b = bucket")
    case True
    with fresh have "lookup2 [(region, rest)] c b = []" by (simp add: lookup2_def)
    with new2(3)[rule_format, of c b] have "partitionRun [] (ferr' = None) new2 c b" by simp
    from partitionRun_emptyD[OF this]
    have e: "deleteCalls c b new2 = []" "deleteResponses c b new2 = []" by simp_all
    from True p have l: "lookup2 [(region, p # rest)] c b = objs"
      by (simp add: lookup2_def)
    from new1(2) True have run: "partitionRun objs (err = None) new1 c b" by simp
    from none have ok: "ferr' = None \<longrightarrow> err = None" by simp
    show ?thesis unfolding l by (rule partitionRun_appendL[OF run e ok])
  next
    case False
    with p have same: "lookup2 [(region, p # rest)] c b = lookup2 [(region, rest)] c b"
      by (auto simp: lookup2_def)
    from False new1(3) have e: "deleteCalls c b new1 = []" "deleteResponses c b new1 = []"
      by blast+
    from new2(3) have run: "partitionRun (lookup2 [(region, rest)] c b) (ferr' = None) new2 c b"
      by blast
    have ok: "ferr' = None \<longrightarrow> ferr' = None" by simp
    show ?thesis unfolding same by (rule partitionRun_appendR[OF run e ok])
  qed
  with new1(1) new2(1) none show ?case
    by (intro exI[of _ "new1 @ new2"]) simp
qed

lemma regionsLoop_run:
  assumes "wf_map m"
    and "regionsLoop env m (ferr, tot) s = ((ferr', tot'), s')"
  shows "\<exists>new. events s' = events s @ new \<and> (ferr' = None \<longrightarrow> ferr = None)
      \<and> (\<forall>c b. partitionRun (lookup2 m c b) (ferr' = None) new c b)"
  using assms
proof (induction m arbitrary: ferr tot s)
  case Nil
  then show ?case by (intro exI[of _ "[]"]) (simp add: lookup2_def partitionRun_emptyI)
next
  case (Cons p rest)
  obtain region bos where p: "p = (region, bos)" by (cases p)
  obtain ferr1 t1 s1 where b:
    "bucketsLoop env region bos (ferr, tot) s = ((ferr1, t1), s1)"
    by (cases "bucketsLoop env region bos (ferr, tot) s") auto
  from Cons.prems(2) p b have rec:
    "regionsLoop env rest (ferr1, t1) s1 = ((ferr', tot'), s')"
    by simp
  from Cons.prems(1) p have wf: "wf_map rest" and d: "distinct (map fst bos)"
    and fresh: "map_of rest region = None"
    by (simp_all add: wf_map_def map_of_eq_None_iff)
  from Cons.IH[OF wf rec] obtain new2 where new2:
    "events s' = events s1 @ new2" "ferr' = None \<longrightarrow> ferr1 = None"
    "\<forall>c b. partitionRun (lookup2 rest c b) (ferr' = None) new2 c b"
    by blast
  from bucketsLoop_run[OF d b] obtain new1 where new1:
    "events s1 = events s @ new1" "ferr1 = None \<longrightarrow> ferr = None"
    "\<forall>c b. partitionRun (lookup2 [(region, bos)] c b) (ferr1 = None) new1 c b"
    by blast
  have "partitionRun (lookup2 (p # rest) c b) (ferr' = None) (new1 @ new2) c b" for c b
  proof (cases "c = region")
    case True
    with fresh have "lookup2 rest c b = []" by (simp add: lookup2_def)
    with new2(3)[rule_format, of c b] have "partitionRun [] (ferr' = None) new2 c b" by simp
    from partitionRun_emptyD[OF this]
    have e: "deleteCalls c b new2 = []" "deleteResponses c b new2 = []" by simp_all
    from True p have same: "lookup2 (p # rest) c b = lookup2 [(region, bos)] c b"
      by (simp add: lookup2_def)
    from new1(3) have run: "partitionRun (lookup2 [(region, bos)] c b) (ferr1 = None) new1 c b"
      by blast
    show ?thesis unfolding same by (rule partitionRun_appendL[OF run e new2(2)])
  next
    case False
    with p have same: "lookup2 (p # rest) c b = lookup2 rest c b"
      by (simp add: lookup2_def)
    from False have "lookup2 [(region, bos)] c b = []" by (simp add: lookup2_def)
    with new1(3)[rule_format, of c b] have "partitionRun [] (ferr1 = None) new1 c b" by simp
    from partitionRun_emptyD[OF this]
    have e: "deleteCalls c b new1 = []" "deleteResponses c b new1 = []" by simp_all
    from new2(3) have run: "partitionRun (lookup2 rest c b) (ferr' = None) new2 c b" by blast
    have ok: "ferr' = None \<longrightarrow> ferr' = None" by simp
    show ?thesis unfolding same by (rule partitionRun_appendR[OF run e ok])
  qed
  with new1(1,2) new2(1,2) show ?case
    by (intro exI[of _ "new1 @ new2"]) simp
qed


lemma list_all_update:
  "list_all P al \<Longrightarrow> P (k, v) \<Longrightarrow> list_all P (AList.update k v al)"
  by (induction al) auto

lemma lookup2_groupObject:
  "lookup2 (groupObject m obj) c b
     = lookup2 m c b @ (if Region obj = c \<and> Bucket obj = b then [obj] else [])"
  by (auto simp: lookup2_def groupObject_def Let_def update_conv' split: option.splits)

lemma wf_groupObject: "wf_map m \<Longrightarrow> wf_map (groupObject m obj)"
proof -
  assume wf: "wf_map m"
  let ?inner = "case map_of m (Region obj) of None \<Rightarrow> [] | Some bo \<Rightarrow> bo"
  have "distinct (map fst ?inner)"
  proof (cases "map_of m (Region obj)")
    case None
    then show ?thesis by simp
  next
    case (Some bo)
    then have "(Region obj, bo) \<in> set m" by (rule map_of_SomeD)
    with wf have "distinct (map fst bo)" by (auto simp: wf_map_def list_all_iff)
    with Some show ?thesis by simp
  qed
  with wf show ?thesis
    by (simp add: wf_map_def groupObject_def Let_def distinct_update list_all_update)
qed

lemma lookup2_foldl_groupObject:
  "lookup2 (foldl groupObject m objs) c b = lookup2 m c b @ bucketPartition objs c b"
  by (induction objs arbitrary: m) (simp_all add: lookup2_groupObject bucketPartition_def)

lemma wf_foldl_groupObject: "wf_map m \<Longrightarrow> wf_map (foldl groupObject m objs)"
  by (induction objs arbitrary: m) (simp_all add: wf_groupObject)

lemma bucketPartition_example:
  "bucketPartition (replicate 1001 exampleObject) [] ''b'' = replicate 1001 exampleObject"
  by (simp add: bucketPartition_def exampleObject_def)

lemma DeleteObjects_failing_events:
  "events (snd (DeleteObjects failingBackend (replicate 1001 exampleObject) newS3Service))
     = [DeleteObjectsCall [] ''b'' (replicate 1000 ''k'') (Inl slowDown)]"
  unfolding DeleteObjects_def foldl_groupObject_example
  by (simp add: deleteGoroutine_def getClientForRegion_def
        deleteBucketObjectsWithClient_def batchLoop.simps slice_def maxDeleteBatchSize_def
        deleteBatchWithClient_def failingBackend_def newS3Service_def emit_def
        exampleObject_def)

text \<open>
  C3, as stated, fails: of the two batches of a partition of 1001 objects only the first
  is sent when the backend refuses it, one call and not two.
\<close>

theorem DeleteObjects_batches_counterexample:
  "length (bucketPartition (replicate 1001 exampleObject) [] ''b'') = 1001
   \<and> (1001 + 999) div 1000 = (2::nat)
   \<and> deleteCalls [] ''b''
       (events (snd (DeleteObjects failingBackend (replicate 1001 exampleObject) newS3Service)))
     = [replicate 1000 ''k'']"
  unfolding DeleteObjects_def foldl_groupObject_example bucketPartition_example
  by (simp add: deleteGoroutine_def getClientForRegion_def
        deleteBucketObjectsWithClient_def batchLoop.simps slice_def maxDeleteBatchSize_def
        deleteBatchWithClient_def failingBackend_def newS3Service_def emit_def
        exampleObject_def)

text \<open>
  C3, amended.  Whatever the objects and the backend, the batch delete calls that
  \<open>DeleteObjects\<close> makes for a (region, bucket) partition of \<open>M\<close> objects each carry
  between 1 and 1000 keys, are at most \<open>ceil(M/1000)\<close>, and are the first batches of the
  partition, in order.  When \<open>DeleteObjects\<close> returns no error they are exactly
  \<open>ceil(M/1000)\<close>, and their keys, in order, are the keys of the partition.  No call
  follows a call that failed: every answer but the last is without error.  When fewer
  than \<open>ceil(M/1000)\<close> calls are made, \<open>DeleteObjects\<close> returns an error, and either the
  last call made for the partition failed or no call was made and the configuration of
  the region's client failed; the remaining batches are not sent.
\<close>

theorem DeleteObjects_batches:
  "\<exists>new. events (snd (DeleteObjects env objects s3s)) = events s3s @ new
     \<and> (\<forall>keys \<in> set (deleteCalls region bucket new). 1 \<le> length keys \<and> length keys \<le> 1000)
     \<and> length (deleteCalls region bucket new)
          \<le> (length (bucketPartition objects region bucket) + 999) div 1000
     \<and> deleteCalls region bucket new
          = map (map Key) (take (length (deleteCalls region bucket new))
                             (chunks 1000 (bucketPartition objects region bucket)))
     \<and> (snd (fst (DeleteObjects env objects s3s)) = None \<longrightarrow>
          length (deleteCalls region bucket new)
            = (length (bucketPartition objects region bucket) + 999) div 1000
          \<and> concat (deleteCalls region bucket new)
            = map Key (bucketPartition objects region bucket))
     \<and> length (deleteResponses region bucket new) = length (deleteCalls region bucket new)
     \<and> (\<forall>i. Suc i < length (deleteResponses region bucket new) \<longrightarrow>
              \<not> isl (deleteResponses region bucket new ! i))
     \<and> (length (deleteCalls region bucket new)
            < (length (bucketPartition objects region bucket) + 999) div 1000 \<longrightarrow>
          snd (fst (DeleteObjects env objects s3s)) \<noteq> None
          \<and> (if deleteResponses region bucket new = []
              then \<exists>e. LoadDefaultConfig region (Some e) \<in> set new
              else isl (last (deleteResponses region bucket new))))"
proof (cases "objects = []")
  case True
  then show ?thesis
    by (intro exI[of _ "[]"]) (simp add: DeleteObjects_def bucketPartition_def)
next
  case False
  let ?m = "foldl groupObject [] objects"
  let ?part = "bucketPartition objects region bucket"
  let ?chunks = "chunks maxDeleteBatchSize ?part"
  obtain ferr tot s' where r: "regionsLoop env ?m (None, 0) s3s = ((ferr, tot), s')"
    by (cases "regionsLoop env ?m (None, 0) s3s") auto
  have wf: "wf_map ?m" by (rule wf_foldl_groupObject) (simp add: wf_map_def)
  have "lookup2 [] region bucket = []" by (simp add: lookup2_def)
  then have look: "lookup2 ?m region bucket = ?part"
    by (simp add: lookup2_foldl_groupObject)
  from regionsLoop_run[OF wf r] obtain new where new:
    "events s' = events s3s @ new"
    "partitionRun (lookup2 ?m region bucket) (ferr = None) new region bucket"
    by blast
  from new(2) obtain j where j:
    "j \<le> length ?chunks" "ferr = None \<longrightarrow> j = length ?chunks"
    "deleteCalls region bucket new = map (map Key) (take j ?chunks)"
    "length (deleteResponses region bucket new) = j"
    "stopsAtFailure (deleteResponses region bucket new)"
    "j < length ?chunks \<longrightarrow>
       (if deleteResponses region bucket new = []
        then \<exists>e. LoadDefaultConfig region (Some e) \<in> set new
        else isl (last (deleteResponses region bucket new)))"
    unfolding look partitionRun_def by blast
  from False r have res: "snd (DeleteObjects env objects s3s) = s'"
    "snd (fst (DeleteObjects env objects s3s)) = ferr"
    by (auto simp: DeleteObjects_def split: option.splits)
  have len: "length ?chunks = (length ?part + 999) div 1000"
    using length_chunks[of maxDeleteBatchSize ?part] by (simp add: maxDeleteBatchSize_def)
  have m: "chunks 1000 ?part = ?chunks" by (simp add: maxDeleteBatchSize_def)
  from j(1,3) have lc: "length (deleteCalls region bucket new) = j" by simp
  have sizes: "1 \<le> length keys \<and> length keys \<le> 1000"
    if "keys \<in> set (deleteCalls region bucket new)" for keys
  proof -
    from that j(3) obtain c where "c \<in> set (take j ?chunks)" "keys = map Key c" by auto
    then have "c \<in> set ?chunks" by (auto dest: in_set_takeD)
    from chunks_sizes[OF this] \<open>keys = map Key c\<close> show ?thesis
      by (simp add: maxDeleteBatchSize_def)
  qed
  have full: "concat (deleteCalls region bucket new) = map Key ?part" if "ferr = None"
  proof -
    from that j have "deleteCalls region bucket new = map (map Key) ?chunks" by simp
    then have "concat (deleteCalls region bucket new) = map Key (concat ?chunks)"
      by (simp add: map_concat)
    then show ?thesis by (simp add: concat_chunks maxDeleteBatchSize_def)
  qed
  show ?thesis
    unfolding res m
  proof (intro exI[of _ new] conjI)
    show "events s' = events s3s @ new" by (rule new(1))
    show "\<forall>keys \<in> set (deleteCalls region bucket new). 1 \<le> length keys \<and> length keys \<le> 1000"
      using sizes by blast
    show "length (deleteCalls region bucket new) \<le> (length ?part + 999) div 1000"
      using j(1) len lc by simp
    show "deleteCalls region bucket new
            = map (map Key) (take (length (deleteCalls region bucket new)) ?chunks)"
      unfolding lc by (rule j(3))
    show "ferr = None \<longrightarrow>
            length (deleteCalls region bucket new) = (length ?part + 999) div 1000
            \<and> concat (deleteCalls region bucket new) = map Key ?part"
      using j(2) len full lc by simp
    show "length (deleteResponses region bucket new) = length (deleteCalls region bucket new)"
      using j(4) lc by simp
    show "\<forall>i. Suc i < length (deleteResponses region bucket new) \<longrightarrow>
              \<not> isl (deleteResponses region bucket new ! i)"
      using j(5) by (simp add: stopsAtFailure_def)
    show "length (deleteCalls region bucket new) < (length ?part + 999) div 1000 \<longrightarrow>
          ferr \<noteq> None
          \<and> (if deleteResponses region bucket new = []
              then \<exists>e. LoadDefaultConfig region (Some e) \<in> set new
              else isl (last (deleteResponses region bucket new)))"
      using j(2,6) len lc by auto
  qed
qed

theorem DeleteObjects_batches_witness:
  "(\<exists>new. events (snd (DeleteObjects okBackend threeObjects newS3Service)) = new
      \<and> deleteCalls [] ''b'' new = [[''k1'', ''k3'']]
      \<and> length (deleteCalls [] ''b'' new) = 1)
   \<and> snd (fst (DeleteObjects failingBackend (replicate 1001 exampleObject) newS3Service)) \<noteq> None
   \<and> isl (last (deleteResponses [] ''b''
         (events (snd (DeleteObjects failingBackend (replicate 1001 exampleObject)
                         newS3Service)))))"
proof (intro conjI)
  have ok: "snd (fst (DeleteObjects okBackend threeObjects newS3Service)) = None"
    by (simp add: DeleteObjects_def threeObjects_def groupObject_def deleteGoroutine_def
          getClientForRegion_def deleteBucketObjectsWithClient_def batchLoop.simps slice_def
          maxDeleteBatchSize_def deleteBatchWithClient_def okBackend_def newS3Service_def
          emit_def)
  have part: "bucketPartition threeObjects [] ''b''
      = [\<lparr>Bucket = ''b'', Key = ''k1'', Region = [], Size = 10\<rparr>,
         \<lparr>Bucket = ''b'', Key = ''k3'', Region = [], Size = 30\<rparr>]"
    by (simp add: bucketPartition_def threeObjects_def)
  from DeleteObjects_batches [of okBackend threeObjects newS3Service "[]" "''b''"]
  obtain new where all:
    "events (snd (DeleteObjects okBackend threeObjects newS3Service))
       = events newS3Service @ new
     \<and> (\<forall>keys \<in> set (deleteCalls [] ''b'' new). 1 \<le> length keys \<and> length keys \<le> 1000)
     \<and> length (deleteCalls [] ''b'' new)
          \<le> (length (bucketPartition threeObjects [] ''b'') + 999) div 1000
     \<and> deleteCalls [] ''b'' new
          = map (map Key) (take (length (deleteCalls [] ''b'' new))
                             (chunks 1000 (bucketPartition threeObjects [] ''b'')))
     \<and> (snd (fst (DeleteObjects okBackend threeObjects newS3Service)) = None \<longrightarrow>
          length (deleteCalls [] ''b'' new)
            = (length (bucketPartition threeObjects [] ''b'') + 999) div 1000
          \<and> concat (deleteCalls [] ''b'' new)
            = map Key (bucketPartition threeObjects [] ''b''))
     \<and> length (deleteResponses [] ''b'' new) = length (deleteCalls [] ''b'' new)
     \<and> (\<forall>i. Suc i < length (deleteResponses [] ''b'' new) \<longrightarrow>
              \<not> isl (deleteResponses [] ''b'' new ! i))
     \<and> (length (deleteCalls [] ''b'' new)
            < (length (bucketPartition threeObjects [] ''b'') + 999) div 1000 \<longrightarrow>
          snd (fst (DeleteObjects okBackend threeObjects newS3Service)) \<noteq> None
          \<and> (if deleteResponses [] ''b'' new = []
              then \<exists>e. LoadDefaultConfig [] (Some e) \<in> set new
              else isl (last (deleteResponses [] ''b'' new))))" ..
  then have new:
    "events (snd (DeleteObjects okBackend threeObjects newS3Service))
       = events newS3Service @ new"
    "snd (fst (DeleteObjects okBackend threeObjects newS3Service)) = None \<longrightarrow>
          length (deleteCalls [] ''b'' new)
            = (length (bucketPartition threeObjects [] ''b'') + 999) div 1000
          \<and> concat (deleteCalls [] ''b'' new)
            = map Key (bucketPartition threeObjects [] ''b'')"
    by blast+
  from new(2) ok part have l: "length (deleteCalls [] ''b'' new) = 1"
    and c: "concat (deleteCalls [] ''b'' new) = [''k1'', ''k3'']"
    by simp_all
  from l obtain ks where ks: "deleteCalls [] ''b'' new = [ks]"
    by (cases "deleteCalls [] ''b'' new") auto
  with c have "deleteCalls [] ''b'' new = [[''k1'', ''k3'']]" by simp
  with new(1) l show "\<exists>new. events (snd (DeleteObjects okBackend threeObjects newS3Service)) = new
      \<and> deleteCalls [] ''b'' new = [[''k1'', ''k3'']]
      \<and> length (deleteCalls [] ''b'' new) = 1"
    by (simp add: newS3Service_def)
next
  let ?run = "DeleteObjects failingBackend (replicate 1001 exampleObject) newS3Service"
  from DeleteObjects_batches
         [of failingBackend "replicate 1001 exampleObject" newS3Service "[]" "''b''"]
  obtain new where all:
    "events (snd ?run) = events newS3Service @ new
     \<and> (\<forall>keys \<in> set (deleteCalls [] ''b'' new). 1 \<le> length keys \<and> length keys \<le> 1000)
     \<and> length (deleteCalls [] ''b'' new)
          \<le> (length (bucketPartition (replicate 1001 exampleObject) [] ''b'') + 999) div 1000
     \<and> deleteCalls [] ''b'' new
          = map (map Key) (take (length (deleteCalls [] ''b'' new))
               (chunks 1000 (bucketPartition (replicate 1001 exampleObject) [] ''b'')))
     \<and> (snd (fst ?run) = None \<longrightarrow>
          length (deleteCalls [] ''b'' new)
            = (length (bucketPartition (replicate 1001 exampleObject) [] ''b'') + 999) div 1000
          \<and> concat (deleteCalls [] ''b'' new)
            = map Key (bucketPartition (replicate 1001 exampleObject) [] ''b''))
     \<and> length (deleteResponses [] ''b'' new) = length (deleteCalls [] ''b'' new)
     \<and> (\<forall>i. Suc i < length (deleteResponses [] ''b'' new) \<longrightarrow>
              \<not> isl (deleteResponses [] ''b'' new ! i))
     \<and> (length (deleteCalls [] ''b'' new)
            < (length (bucketPartition (replicate 1001 exampleObject) [] ''b'') + 999) div 1000
          \<longrightarrow>
          snd (fst ?run) \<noteq> None
          \<and> (if deleteResponses [] ''b'' new = []
              then \<exists>e. LoadDefaultConfig [] (Some e) \<in> set new
              else isl (last (deleteResponses [] ''b'' new))))" ..
  then have new:
    "events (snd ?run) = events newS3Service @ new"
    "length (deleteCalls [] ''b'' new)
       < (length (bucketPartition (replicate 1001 exampleObject) [] ''b'') + 999) div 1000 \<longrightarrow>
     snd (fst ?run) \<noteq> None
     \<and> (if deleteResponses [] ''b'' new = []
         then \<exists>e. LoadDefaultConfig [] (Some e) \<in> set new
         else isl (last (deleteResponses [] ''b'' new)))"
    by blast+
  have e0: "events newS3Service = []" by (simp add: newS3Service_def)
  from new(1) have ev: "new = [DeleteObjectsCall [] ''b'' (replicate 1000 ''k'') (Inl slowDown)]"
    unfolding e0 DeleteObjects_failing_events by simp
  have "length (deleteCalls [] ''b'' new)
       < (length (bucketPartition (replicate 1001 exampleObject) [] ''b'') + 999) div 1000"
    unfolding ev bucketPartition_example by simp
  with new(2) have concl: "snd (fst ?run) \<noteq> None"
    "if deleteResponses [] ''b'' new = []
     then \<exists>e. LoadDefaultConfig [] (Some e) \<in> set new
     else isl (last (deleteResponses [] ''b'' new))"
    by blast+
  from concl(1) show "snd (fst ?run) \<noteq> None" .
  from concl(2) show "isl (last (deleteResponses [] ''b'' (events (snd ?run))))"
    unfolding DeleteObjects_failing_events unfolding ev by simp
qed


text \<open>
  C4.  The code at the failing input: one object, a backend that refuses every batch
  delete.  \<open>deleteBatchWithRetry\<close> makes four attempts, each after a rate-limiter
  acquisition, and waits 100 ms, 200 ms and 300 ms between them: the delay grows by
  \<open>baseDelay\<close> at each attempt and is not doubled (the third delay is not 400 ms).
  \<open>DeleteObjects\<close> on the same object makes one attempt, with no rate-limiter acquisition
  and no retry.
\<close>

theorem deleteBatchWithRetry_backoff_evaluation:
  "events (snd (deleteBatchWithRetry failingBackend ''b'' [exampleObject] newS3Service))
     = [Wait None, DeleteObjectsCall [] ''b'' [''k''] (Inl slowDown),
        After (100 * Millisecond) None,
        Wait None, DeleteObjectsCall [] ''b'' [''k''] (Inl slowDown),
        After (200 * Millisecond) None,
        Wait None, DeleteObjectsCall [] ''b'' [''k''] (Inl slowDown),
        After (300 * Millisecond) None,
        Wait None, DeleteObjectsCall [] ''b'' [''k''] (Inl slowDown)]
   \<and> 300 * Millisecond \<noteq> 2 * (2 * baseDelay)
   \<and> events (snd (DeleteObjects failingBackend [exampleObject] newS3Service))
     = [DeleteObjectsCall [] ''b'' [''k''] (Inl slowDown)]"
  by (simp add: deleteBatchWithRetry_def deleteBatchWithRetry_loop.simps deleteBatch_def
        deleteBatchWithClient_def failingBackend_def newS3Service_def exampleObject_def
        emit_def maxRetries_def retryDelay_def baseDelay_def maxDelay_def Second_def
        Millisecond_def DeleteObjects_def groupObject_def deleteGoroutine_def
        getClientForRegion_def deleteBucketObjectsWithClient_def batchLoop.simps slice_def
        maxDeleteBatchSize_def)

lemma pageResults_simps [simp]:
  "pageResults [] = []"
  "pageResults (xs @ ys) = pageResults xs @ pageResults ys"
  "pageResults (NextPage b r # evs) = r # pageResults evs"
  "pageResults (Wait w # evs) = pageResults evs"
  "pageResults (After d c # evs) = pageResults evs"
  "pageResults (DeleteObjectsCall cl b ks resp # evs) = pageResults evs"
  "pageResults (DeleteBucketCall b e # evs) = pageResults evs"
  by (simp_all add: pageResults_def)

lemma acceptedKeys_simps [simp]:
  "acceptedKeys [] = []"
  "acceptedKeys (xs @ ys) = acceptedKeys xs @ acceptedKeys ys"
  "acceptedKeys (NextPage b r # evs) = acceptedKeys evs"
  "acceptedKeys (Wait w # evs) = acceptedKeys evs"
  "acceptedKeys (After d c # evs) = acceptedKeys evs"
  "acceptedKeys (DeleteObjectsCall cl b ks (Inr out) # evs) = ks @ acceptedKeys evs"
  "acceptedKeys (DeleteObjectsCall cl b ks (Inl e) # evs) = acceptedKeys evs"
  "acceptedKeys (DeleteBucketCall b eo # evs) = acceptedKeys evs"
  by (simp_all add: acceptedKeys_def)

lemma is_removal_simps [simp]:
  "is_removal (DeleteBucketCall b eo)"
  "\<not> is_removal (NextPage b r)"
  "\<not> is_removal (Wait w)"
  "\<not> is_removal (After d c)"
  "\<not> is_removal (DeleteObjectsCall cl b ks resp)"
  "\<not> is_removal (LoadDefaultConfig region eo)"
  by (simp_all add: is_removal_def)

lemma is_object_call_simps [simp]:
  "\<not> is_object_call (DeleteBucketCall b eo)"
  "is_object_call (NextPage b r)"
  "\<not> is_object_call (Wait w)"
  "\<not> is_object_call (After d c)"
  "is_object_call (DeleteObjectsCall cl b ks resp)"
  "\<not> is_object_call (LoadDefaultConfig region eo)"
  by (simp_all add: is_object_call_def)

lemma deleteBatch_events:
  assumes "deleteBatch env bucket objects s = ((d, derr), s')"
  shows "\<exists>new. events s' = events s @ new \<and> filter is_removal new = []
           \<and> pageResults new = []
           \<and> acceptedKeys new = (if derr = None then map Key objects else [])"
proof (cases "objects = []")
  case True
  with assms show ?thesis
    by (intro exI[of _ "[]"]) (auto simp: deleteBatch_def deleteBatchWithClient_def)
next
  case False
  let ?resp = "client_DeleteObjects env (events s) [] bucket (map Key objects)"
  from False assms show ?thesis
    by (intro exI[of _ "[DeleteObjectsCall [] bucket (map Key objects) ?resp]"])
       (auto simp: deleteBatch_def deleteBatchWithClient_def emit_def split: sum.splits)
qed

lemma deleteBatchWithRetry_loop_events:
  "deleteBatchWithRetry_loop env bucket objects attempt lastErr s = ((n, err), s') \<Longrightarrow>
   \<exists>new. events s' = events s @ new \<and> filter is_removal new = [] \<and> pageResults new = []
      \<and> acceptedKeys new = (if err = None then map Key objects else [])"
proof (induction "Suc maxRetries - attempt" arbitrary: attempt lastErr s rule: less_induct)
  case less
  note run = less.prems[unfolded deleteBatchWithRetry_loop.simps[of env bucket objects attempt]]
  show ?case
  proof (cases "attempt \<le> maxRetries")
    case False
    with run show ?thesis by (intro exI[of _ "[]"]) auto
  next
    case True
    show ?thesis
    proof (cases "rateLimiter_Wait env (events s)")
      case (Some e)
      with run True show ?thesis
        by (intro exI[of _ "[Wait (Some e)]"]) (auto simp: emit_def)
    next
      case None
      obtain d derr s1 where b: "deleteBatch env bucket objects (emit s (Wait None)) = ((d, derr), s1)"
        by (cases "deleteBatch env bucket objects (emit s (Wait None))") auto
      from deleteBatch_events[OF b] obtain evs where evs:
        "events s1 = events s @ Wait None # evs" "filter is_removal evs = []"
        "pageResults evs = []"
        "acceptedKeys evs = (if derr = None then map Key objects else [])"
        by (auto simp: emit_def)
      show ?thesis
      proof (cases derr)
        case dn: None
        with run True None b have "s' = s1" "err = None" by simp_all
        with evs dn show ?thesis by (intro exI[of _ "Wait None # evs"]) simp
      next
        case ds: (Some e)
        show ?thesis
        proof (cases "attempt = maxRetries")
          case last: True
          with run None b ds have "s' = s1" "err \<noteq> None" by auto
          with evs ds show ?thesis by (intro exI[of _ "Wait None # evs"]) auto
        next
          case notlast: False
          show ?thesis
          proof (cases "ctx_Done env (events s1) (retryDelay attempt)")
            case (Some cerr)
            with run True None b ds notlast
            have "s' = emit s1 (After (retryDelay attempt) (Some cerr))" "err = Some cerr"
              by auto
            with evs ds show ?thesis
              by (intro exI[of _ "Wait None # evs @ [After (retryDelay attempt) (Some cerr)]"])
                 (auto simp: emit_def)
          next
            case cn: None
            with run True None b ds notlast have rec:
              "deleteBatchWithRetry_loop env bucket objects (attempt + 1) (Some e)
                 (emit s1 (After (retryDelay attempt) None)) = ((n, err), s')"
              by simp
            have "Suc maxRetries - (attempt + 1) < Suc maxRetries - attempt"
              using True by simp
            from less.hyps[OF this rec] obtain new' where new':
              "events s' = events s1 @ After (retryDelay attempt) None # new'"
              "filter is_removal new' = []" "pageResults new' = []"
              "acceptedKeys new' = (if err = None then map Key objects else [])"
              by (auto simp: emit_def)
            with evs ds show ?thesis
              by (intro exI[of _ "Wait None # evs @ After (retryDelay attempt) None # new'"])
                 simp
          qed
        qed
      qed
    qed
  qed
qed

lemma batchLoop_WithRetry_events:
  "batchLoop (deleteBatchWithRetry env bucket) objects i tot s = ((n, err), s') \<Longrightarrow>
   \<exists>new. events s' = events s @ new \<and> filter is_removal new = [] \<and> pageResults new = []
      \<and> (err = None \<longrightarrow> acceptedKeys new = map Key (drop i objects))"
proof (induction "length objects - i" arbitrary: i tot s rule: less_induct)
  case less
  show ?case
  proof (cases "i < length objects")
    case False
    with less.prems have "s' = s" by (simp add: batchLoop.simps)
    with False show ?thesis by (intro exI[of _ "[]"]) simp
  next
    case True
    let ?batch = "take maxDeleteBatchSize (drop i objects)"
    obtain d derr s1 where b:
      "deleteBatchWithRetry_loop env bucket ?batch 0 None s = ((d, derr), s1)"
      by (cases "deleteBatchWithRetry_loop env bucket ?batch 0 None s") auto
    from deleteBatchWithRetry_loop_events[OF b] obtain evs where evs:
      "events s1 = events s @ evs" "filter is_removal evs = []" "pageResults evs = []"
      "acceptedKeys evs = (if derr = None then map Key ?batch else [])"
      by blast
    show ?thesis
    proof (cases derr)
      case (Some e)
      with less.prems True b have "s' = s1" "err \<noteq> None"
        by (auto simp: batchLoop.simps[of _ objects i] slice_batch deleteBatchWithRetry_def)
      with evs show ?thesis by (intro exI[of _ evs]) auto
    next
      case None
      with less.prems True b have rec:
        "batchLoop (deleteBatchWithRetry env bucket) objects (i + maxDeleteBatchSize)
           (tot + d) s1 = ((n, err), s')"
        by (simp add: batchLoop.simps[of _ objects i] slice_batch deleteBatchWithRetry_def)
      have "length objects - (i + maxDeleteBatchSize) < length objects - i"
        using True by (simp add: maxDeleteBatchSize_def)
      from less.hyps[OF this rec] obtain new' where new':
        "events s' = events s1 @ new'" "filter is_removal new' = []" "pageResults new' = []"
        "err = None \<longrightarrow> acceptedKeys new' = map Key (drop (i + maxDeleteBatchSize) objects)"
        by blast
      have "map Key ?batch @ map Key (drop (i + maxDeleteBatchSize) objects)
              = map Key (drop i objects)"
        by (simp add: add.commute flip: map_append drop_drop)
      with evs new' None show ?thesis by (intro exI[of _ "evs @ new'"]) simp
    qed
  qed
qed

lemma deleteBucketObjectsOptimized_events:
  assumes "deleteBucketObjectsOptimized env bucket objects s = ((n, err), s')"
  shows "\<exists>new. events s' = events s @ new \<and> filter is_removal new = [] \<and> pageResults new = []
      \<and> (err = None \<longrightarrow> acceptedKeys new = map Key objects)"
proof (cases "objects = []")
  case True
  with assms show ?thesis
    by (intro exI[of _ "[]"]) (simp add: deleteBucketObjectsOptimized_def)
next
  case False
  with assms have "batchLoop (deleteBatchWithRetry env bucket) objects 0 0 s = ((n, err), s')"
    by (simp add: deleteBucketObjectsOptimized_def)
  from batchLoop_WithRetry_events[OF this] show ?thesis by simp
qed


lemma listingDone_last_page:
  "listingDone (Wait None # NextPage b (Inr page) # evs) =
     (if pageResults evs = [] then \<not> HasMorePages page else listingDone evs)"
  by (simp add: listingDone_def)

lemma listedKeys_page:
  "listedKeys (Wait None # NextPage b (Inr page) # evs) = Contents page @ listedKeys evs"
  by (simp add: listedKeys_def)

lemma listedKeys_no_pages: "pageResults evs = [] \<Longrightarrow> listedKeys evs = []"
  by (simp add: listedKeys_def)

lemma listedKeys_append: "listedKeys (xs @ ys) = listedKeys xs @ listedKeys ys"
  by (simp add: listedKeys_def)

lemma listingDone_skip:
  "pageResults xs = [] \<Longrightarrow> listingDone (xs @ ys) = listingDone ys"
  by (simp add: listingDone_def)

lemma listingDone_pages: "listingDone evs \<Longrightarrow> pageResults evs \<noteq> []"
  by (simp add: listingDone_def)

lemma page_then_more:
  assumes "pageResults evs = []" "filter is_removal evs = []" "filter is_removal new' = []"
    and "acceptedKeys evs = Contents page"
    and "ok \<longrightarrow> listingDone new' \<and> acceptedKeys new' = listedKeys new'"
  shows "filter is_removal (Wait None # NextPage b (Inr page) # evs @ new') = []
     \<and> (ok \<longrightarrow> listingDone (Wait None # NextPage b (Inr page) # evs @ new')
              \<and> acceptedKeys (Wait None # NextPage b (Inr page) # evs @ new')
                  = listedKeys (Wait None # NextPage b (Inr page) # evs @ new'))"
proof (intro conjI impI)
  show "filter is_removal (Wait None # NextPage b (Inr page) # evs @ new') = []"
    using assms(2,3) by simp
next
  assume ok
  with assms(5) have d: "listingDone new'" and k: "acceptedKeys new' = listedKeys new'"
    by simp_all
  from d have "pageResults new' \<noteq> []" by (rule listingDone_pages)
  with assms(1) d show "listingDone (Wait None # NextPage b (Inr page) # evs @ new')"
    by (simp add: listingDone_last_page listingDone_skip)
  show "acceptedKeys (Wait None # NextPage b (Inr page) # evs @ new')
          = listedKeys (Wait None # NextPage b (Inr page) # evs @ new')"
    using assms(1,4) k
    by (simp add: listedKeys_page listedKeys_append listedKeys_no_pages)
qed

lemma page_then_done:
  assumes "pageResults evs = []" "filter is_removal evs = []"
    and "acceptedKeys evs = Contents page" "\<not> HasMorePages page"
  shows "filter is_removal (Wait None # NextPage b (Inr page) # evs) = []
     \<and> listingDone (Wait None # NextPage b (Inr page) # evs)
     \<and> acceptedKeys (Wait None # NextPage b (Inr page) # evs)
          = listedKeys (Wait None # NextPage b (Inr page) # evs)"
  using assms by (simp add: listingDone_last_page listedKeys_page listedKeys_no_pages)

lemma deleteAllObjectsInBucket_loop_events:
  assumes "deleteAllObjectsInBucket_loop env bucketName totalDeleted s = Some y"
  shows "\<exists>new. events (snd y) = events s @ new \<and> filter is_removal new = []
      \<and> (fst y = None \<longrightarrow> listingDone new \<and> acceptedKeys new = listedKeys new)"
  using assms
proof (induction env bucketName totalDeleted s y
         rule: deleteAllObjectsInBucket_loop.raw_induct[rotated 1, consumes 1, case_names step])
  case (step loop env bucketName totalDeleted s y)
  note run = step.hyps
  show ?case
  proof (cases "rateLimiter_Wait env (events s)")
    case (Some e)
    with run have "y = (Some (Errorf ''rate limiter context cancelled: %w'' [V e]),
                        emit s (Wait (Some e)))" by simp
    then show ?thesis
      by (intro exI[of _ "[Wait (Some e)]"]) (simp add: emit_def)
  next
    case None
    let ?s1 = "emit s (Wait None)"
    show ?thesis
    proof (cases "paginator_NextPage env (events ?s1) bucketName")
      case (Inl e)
      with run None have "y = (Some (Errorf ''failed to list objects page: %w'' [V e]),
                               emit ?s1 (NextPage bucketName (Inl e)))" by simp
      then show ?thesis
        by (intro exI[of _ "[Wait None, NextPage bucketName (Inl e)]"]) (simp add: emit_def)
    next
      case (Inr page)
      let ?s2 = "emit ?s1 (NextPage bucketName (Inr page))"
      let ?objects = "map (\<lambda>k. \<lparr>Bucket = bucketName, Key = k, Region = [], Size = 0\<rparr>)
                        (Contents page)"
      have s2: "events ?s2 = events s @ [Wait None, NextPage bucketName (Inr page)]"
        by (simp add: emit_def)
      have keys: "map Key ?objects = Contents page" by (simp add: comp_def)
      \<comment> \<open>the deletion of the page, which makes no call for a page without keys\<close>
      obtain d derr s3 where del:
        "deleteBucketObjectsOptimized env bucketName ?objects ?s2 = ((d, derr), s3)"
        by (cases "deleteBucketObjectsOptimized env bucketName ?objects ?s2") auto
      from deleteBucketObjectsOptimized_events[OF del] obtain evs where evs:
        "events s3 = events ?s2 @ evs" "filter is_removal evs = []" "pageResults evs = []"
        "derr = None \<longrightarrow> acceptedKeys evs = Contents page"
        unfolding keys by blast
      have empty_page: "derr = None \<and> s3 = ?s2" if "Contents page = []"
        using that del by (simp add: deleteBucketObjectsOptimized_def)
      have body: "(case derr of
                     None \<Rightarrow> if HasMorePages page
                             then loop env bucketName
                                    (if Contents page = [] then totalDeleted
                                     else totalDeleted + d) s3
                             else Some (None, s3)
                   | Some err \<Rightarrow>
                       Some (Some (Errorf ''failed to delete batch of %d objects: %w''
                                     [N (length (Contents page)), V err]), s3)) = Some y"
        using run None Inr del empty_page
        by (cases "Contents page = []") (auto split: option.splits)
      have ev3: "events s3 = events s @ Wait None # NextPage bucketName (Inr page) # evs"
        using evs(1) s2 by simp
      show ?thesis
      proof (cases derr)
        case (Some e)
        with body have sy: "snd y = s3"
          and fy: "fst y = Some (Errorf ''failed to delete batch of %d objects: %w''
                                   [N (length (Contents page)), V e])"
          by auto
        show ?thesis
          by (intro exI[of _ "Wait None # NextPage bucketName (Inr page) # evs"])
             (simp add: sy fy ev3 evs(2))
      next
        case dn: None
        with evs(4) have acc: "acceptedKeys evs = Contents page" by simp
        show ?thesis
        proof (cases "HasMorePages page")
          case True
          with body dn have "loop env bucketName
                               (if Contents page = [] then totalDeleted else totalDeleted + d) s3
                             = Some y" by simp
          from step.IH[OF this] obtain new' where all:
            "events (snd y) = events s3 @ new' \<and> filter is_removal new' = []
             \<and> (fst y = None \<longrightarrow> listingDone new' \<and> acceptedKeys new' = listedKeys new')" ..
          then have new': "events (snd y) = events s3 @ new'" "filter is_removal new' = []"
            "fst y = None \<longrightarrow> listingDone new' \<and> acceptedKeys new' = listedKeys new'"
            by blast+
          have r: "events (snd y)
                     = events s @ (Wait None # NextPage bucketName (Inr page) # evs @ new')"
            unfolding new'(1) ev3 by simp
          note pm = page_then_more[OF evs(3) evs(2) new'(2) acc new'(3), of bucketName]
          show ?thesis
          proof (intro exI[of _ "Wait None # NextPage bucketName (Inr page) # evs @ new'"]
                   conjI)
            show "events (snd y)
                    = events s @ Wait None # NextPage bucketName (Inr page) # evs @ new'"
              by (rule r)
            show "filter is_removal (Wait None # NextPage bucketName (Inr page) # evs @ new')
                    = []"
              by (rule pm[THEN conjunct1])
            show "fst y = None \<longrightarrow>
                    listingDone (Wait None # NextPage bucketName (Inr page) # evs @ new')
                    \<and> acceptedKeys (Wait None # NextPage bucketName (Inr page) # evs @ new')
                        = listedKeys (Wait None # NextPage bucketName (Inr page) # evs @ new')"
              by (rule pm[THEN conjunct2])
          qed
        next
          case False
          with body dn have "Some (None, s3) = Some y" by simp
          then have r: "events (snd y)
                     = events s @ (Wait None # NextPage bucketName (Inr page) # evs)"
            using ev3 by auto
          note pd = page_then_done[OF evs(3) evs(2) acc False, of bucketName]
          show ?thesis
          proof (intro exI[of _ "Wait None # NextPage bucketName (Inr page) # evs"] conjI)
            show "events (snd y) = events s @ Wait None # NextPage bucketName (Inr page) # evs"
              by (rule r)
            show "filter is_removal (Wait None # NextPage bucketName (Inr page) # evs) = []"
              by (rule pd[THEN conjunct1])
            show "fst y = None \<longrightarrow>
                    listingDone (Wait None # NextPage bucketName (Inr page) # evs)
                    \<and> acceptedKeys (Wait None # NextPage bucketName (Inr page) # evs)
                        = listedKeys (Wait None # NextPage bucketName (Inr page) # evs)"
              using pd[THEN conjunct2] by simp
          qed
        qed
      qed
    qed
  qed
qed

lemma deleteBucketWithRetry_loop_events:
  "deleteBucketWithRetry_loop env bucketName attempt lastErr s = (err, s') \<Longrightarrow>
   \<exists>new. events s' = events s @ new \<and> filter is_object_call new = []
      \<and> (attempt \<le> maxRetries \<longrightarrow> new \<noteq> [])"
proof (induction "Suc maxRetries - attempt" arbitrary: attempt lastErr s rule: less_induct)
  case less
  note run = less.prems[unfolded deleteBucketWithRetry_loop.simps[of env bucketName attempt]]
  show ?case
  proof (cases "attempt \<le> maxRetries")
    case False
    with run show ?thesis by (intro exI[of _ "[]"]) auto
  next
    case True
    show ?thesis
    proof (cases "rateLimiter_Wait env (events s)")
      case (Some e)
      with run True show ?thesis
        by (intro exI[of _ "[Wait (Some e)]"]) (auto simp: emit_def)
    next
      case None
      let ?s1 = "emit s (Wait None)"
      show ?thesis
      proof (cases "client_DeleteBucket env (events ?s1) bucketName")
        case ok: None
        with run True None show ?thesis
          by (intro exI[of _ "[Wait None, DeleteBucketCall bucketName None]"])
             (auto simp: emit_def)
      next
        case (Some e)
        let ?s2 = "emit ?s1 (DeleteBucketCall bucketName (Some e))"
        show ?thesis
        proof (cases "attempt = maxRetries")
          case last: True
          with run None Some show ?thesis
            by (intro exI[of _ "[Wait None, DeleteBucketCall bucketName (Some e)]"])
               (auto simp: emit_def)
        next
          case notlast: False
          show ?thesis
          proof (cases "ctx_Done env (events ?s2) (retryDelay attempt)")
            case cs: (Some cerr)
            with run True None Some notlast show ?thesis
              by (intro exI[of _ "[Wait None, DeleteBucketCall bucketName (Some e),
                                   After (retryDelay attempt) (Some cerr)]"])
                 (auto simp: emit_def)
          next
            case cn: None
            with run True None Some notlast have rec:
              "deleteBucketWithRetry_loop env bucketName (attempt + 1) (Some e)
                 (emit ?s2 (After (retryDelay attempt) None)) = (err, s')"
              by simp
            have "Suc maxRetries - (attempt + 1) < Suc maxRetries - attempt"
              using True by simp
            from less.hyps[OF this rec] obtain new' where new':
              "events s' = events s @ [Wait None, DeleteBucketCall bucketName (Some e),
                                       After (retryDelay attempt) None] @ new'"
              "filter is_object_call new' = []"
              by (auto simp: emit_def)
            then show ?thesis
              by (intro exI[of _ "[Wait None, DeleteBucketCall bucketName (Some e),
                                   After (retryDelay attempt) None] @ new'"]) simp
          qed
        qed
      qed
    qed
  qed
qed

lemma deleteAllObjectsInBucket_loop_returns:
  assumes "\<And>h. n \<le> length (pageResults h) \<Longrightarrow>
             (case paginator_NextPage env h bucketName of
                Inl _ \<Rightarrow> True | Inr page \<Rightarrow> \<not> HasMorePages page)"
  shows "\<exists>y. deleteAllObjectsInBucket_loop env bucketName tot s = Some y"
proof (induction "Suc n - length (pageResults (events s))" arbitrary: tot s rule: less_induct)
  case less
  let ?s1 = "emit s (Wait None)"
  show ?case
  proof (cases "rateLimiter_Wait env (events s)")
    case (Some e)
    then show ?thesis by (subst deleteAllObjectsInBucket_loop.simps) simp
  next
    case None
    show ?thesis
    proof (cases "paginator_NextPage env (events ?s1) bucketName")
      case (Inl e)
      with None show ?thesis by (subst deleteAllObjectsInBucket_loop.simps) simp
    next
      case (Inr page)
      let ?s2 = "emit ?s1 (NextPage bucketName (Inr page))"
      let ?objects = "map (\<lambda>k. \<lparr>Bucket = bucketName, Key = k, Region = [], Size = 0\<rparr>)
                        (Contents page)"
      have p1: "pageResults (events ?s1) = pageResults (events s)" by (simp add: emit_def)
      have p2: "pageResults (events ?s2) = pageResults (events s) @ [Inr page]"
        by (simp add: emit_def)
      have more: "length (pageResults (events s)) < n" if "HasMorePages page"
      proof (rule ccontr)
        assume "\<not> length (pageResults (events s)) < n"
        then have "n \<le> length (pageResults (events ?s1))" by (simp add: p1)
        from assms[OF this] Inr that show False by simp
      qed
      obtain d derr s3 where del:
        "deleteBucketObjectsOptimized env bucketName ?objects ?s2 = ((d, derr), s3)"
        by (cases "deleteBucketObjectsOptimized env bucketName ?objects ?s2") auto
      from deleteBucketObjectsOptimized_events[OF del] obtain evs where evs:
        "events s3 = events ?s2 @ evs" "pageResults evs = []"
        by blast
      have p3: "pageResults (events s3) = pageResults (events s) @ [Inr page]"
        unfolding evs(1) by (simp add: p2 evs(2))
      have rec2: "\<exists>y. deleteAllObjectsInBucket_loop env bucketName t ?s2 = Some y"
        if "HasMorePages page" for t
        by (rule less.hyps) (use more[OF that] in \<open>simp add: p2\<close>)
      have rec3: "\<exists>y. deleteAllObjectsInBucket_loop env bucketName t s3 = Some y"
        if "HasMorePages page" for t
        by (rule less.hyps) (use more[OF that] in \<open>simp add: p3\<close>)
      show ?thesis
        using None Inr del rec2 rec3
        by (subst deleteAllObjectsInBucket_loop.simps) (simp split: option.splits)
    qed
  qed
qed

lemma DeleteBucket_ok_example:
  "DeleteBucket okBackend ''b'' newS3Service
     = Some (None,
             \<lparr>regionClients = [],
              events =
                [Wait None,
                 NextPage ''b'' (Inr \<lparr>Contents = [''k1'', ''k2''], HasMorePages = True\<rparr>),
                 Wait None,
                 DeleteObjectsCall [] ''b'' [''k1'', ''k2'']
                   (Inr \<lparr>Deleted = [''k1'', ''k2''], Errors = []\<rparr>),
                 Wait None,
                 NextPage ''b'' (Inr \<lparr>Contents = [''k3''], HasMorePages = False\<rparr>),
                 Wait None,
                 DeleteObjectsCall [] ''b'' [''k3''] (Inr \<lparr>Deleted = [''k3''], Errors = []\<rparr>),
                 Wait None, DeleteBucketCall ''b'' None]\<rparr>)"
  by (simp add: DeleteBucket_def deleteAllObjectsInBucket_def
        deleteAllObjectsInBucket_loop.simps deleteBucketObjectsOptimized_def batchLoop.simps
        slice_def maxDeleteBatchSize_def deleteBatchWithRetry_def
        deleteBatchWithRetry_loop.simps deleteBatch_def deleteBatchWithClient_def
        deleteBucketWithRetry_def deleteBucketWithRetry_loop.simps
        okBackend_def newS3Service_def emit_def maxRetries_def)

lemma deleteAllObjectsInBucket_failing_example:
  "deleteAllObjectsInBucket failingBackend ''b'' newS3Service
     = Some (Some (Errorf ''failed to delete batch of %d objects: %w''
                     [N 1, V (Errorf ''batch delete failed after %d attempts: %w''
                                [N 4, V (Errorf ''failed to delete objects: %w'' [V slowDown])])]),
             \<lparr>regionClients = [],
              events =
                [Wait None, NextPage ''b'' (Inr \<lparr>Contents = [''k''], HasMorePages = False\<rparr>),
                 Wait None, DeleteObjectsCall [] ''b'' [''k''] (Inl slowDown),
                 After (100 * Millisecond) None,
                 Wait None, DeleteObjectsCall [] ''b'' [''k''] (Inl slowDown),
                 After (200 * Millisecond) None,
                 Wait None, DeleteObjectsCall [] ''b'' [''k''] (Inl slowDown),
                 After (300 * Millisecond) None,
                 Wait None, DeleteObjectsCall [] ''b'' [''k''] (Inl slowDown)]\<rparr>)"
  by (simp add: deleteAllObjectsInBucket_def
        deleteAllObjectsInBucket_loop.simps deleteBucketObjectsOptimized_def batchLoop.simps
        slice_def maxDeleteBatchSize_def deleteBatchWithRetry_def
        deleteBatchWithRetry_loop.simps deleteBatch_def deleteBatchWithClient_def
        failingBackend_def newS3Service_def emit_def maxRetries_def retryDelay_def
        baseDelay_def maxDelay_def Second_def Millisecond_def)

text \<open>
  C5.  The code at the failing input: a bucket whose listing has the one key \<open>k\<close>, and a
  backend that answers the batch delete call without a call-level error but reports
  \<open>k\<close> as not deleted (\<open>Deleted\<close> is empty, \<open>Errors\<close> names \<open>k\<close>).  \<open>deleteBatch\<close> only logs
  the per-key errors and returns \<open>len(result.Deleted), nil\<close>, so
  \<open>deleteAllObjectsInBucket\<close> returns no error, and \<open>DeleteBucket\<close>, documented as
  deleting the bucket "after ensuring it's empty", goes on to the bucket-removal call,
  four times, with the listed object still in the bucket.
\<close>

theorem DeleteBucket_not_empty_evaluation:
  "map_option fst (deleteAllObjectsInBucket perKeyErrorBackend ''b'' newS3Service) = Some None
   \<and> DeleteBucket perKeyErrorBackend ''b'' newS3Service
     = Some (Some (Errorf ''failed to delete bucket %s: %w''
                     [S ''b'', V (Errorf ''bucket deletion failed after %d attempts: %w''
                                    [N 4, V bucketNotEmpty])]),
             \<lparr>regionClients = [],
              events =
                [Wait None, NextPage ''b'' (Inr \<lparr>Contents = [''k''], HasMorePages = False\<rparr>),
                 Wait None,
                 DeleteObjectsCall [] ''b'' [''k'']
                   (Inr \<lparr>Deleted = [], Errors = [(''k'', ''AccessDenied'', ''Access Denied'')]\<rparr>),
                 Wait None, DeleteBucketCall ''b'' (Some bucketNotEmpty),
                 After (100 * Millisecond) None,
                 Wait None, DeleteBucketCall ''b'' (Some bucketNotEmpty),
                 After (200 * Millisecond) None,
                 Wait None, DeleteBucketCall ''b'' (Some bucketNotEmpty),
                 After (300 * Millisecond) None,
                 Wait None, DeleteBucketCall ''b'' (Some bucketNotEmpty)]\<rparr>)"
  by (simp add: DeleteBucket_def deleteAllObjectsInBucket_def
        deleteAllObjectsInBucket_loop.simps deleteBucketObjectsOptimized_def batchLoop.simps
        slice_def maxDeleteBatchSize_def deleteBatchWithRetry_def
        deleteBatchWithRetry_loop.simps deleteBatch_def deleteBatchWithClient_def
        deleteBucketWithRetry_def deleteBucketWithRetry_loop.simps
        perKeyErrorBackend_def newS3Service_def emit_def maxRetries_def retryDelay_def
        baseDelay_def maxDelay_def Second_def Millisecond_def)

text \<open>
  The order of the calls of \<open>DeleteBucket\<close>, whatever the backend answers: a run \<open>objs\<close>
  of listing and batch delete calls, with no bucket removal in it, is followed by a run
  \<open>rm\<close> of bucket-removal attempts, with no listing or batch delete in it.  The removal
  is reached only when the listing has been read to its last page and every listed key
  has been sent in a batch delete call that returned no call-level error.  When
  listing, rate limiting or a batch call (after its retries) fails, the bucket removal
  is not attempted and \<open>DeleteBucket\<close> returns that error, wrapped.  \<open>DeleteBucket\<close>
  returns whenever the listing ends after some number of pages.
\<close>

lemma DeleteBucket_calls_order:
  "(\<forall>err s1. deleteAllObjectsInBucket env bucketName s3s = Some (Some err, s1) \<longrightarrow>
       DeleteBucket env bucketName s3s
         = Some (Some (Errorf ''failed to delete objects in bucket %s: %w''
                         [S bucketName, V err]), s1)
       \<and> filter is_removal (events s1) = filter is_removal (events s3s))
   \<and> (\<forall>res s3s'. DeleteBucket env bucketName s3s = Some (res, s3s') \<longrightarrow>
        (\<exists>objs rm. events s3s' = events s3s @ objs @ rm
           \<and> filter is_removal objs = []
           \<and> filter is_object_call rm = []
           \<and> (rm \<noteq> [] \<longrightarrow> listingDone objs \<and> acceptedKeys objs = listedKeys objs)
           \<and> (rm = [] \<longrightarrow> res \<noteq> None)))
   \<and> (\<forall>n. (\<forall>h. n \<le> length (pageResults h) \<longrightarrow>
               (case paginator_NextPage env h bucketName of
                  Inl _ \<Rightarrow> True | Inr page \<Rightarrow> \<not> HasMorePages page)) \<longrightarrow>
          DeleteBucket env bucketName s3s \<noteq> None)"
proof (intro conjI allI impI)
  fix err s1
  assume a: "deleteAllObjectsInBucket env bucketName s3s = Some (Some err, s1)"
  then show "DeleteBucket env bucketName s3s
         = Some (Some (Errorf ''failed to delete objects in bucket %s: %w''
                         [S bucketName, V err]), s1)"
    by (simp add: DeleteBucket_def)
  from a deleteAllObjectsInBucket_loop_events[of env bucketName 0 s3s "(Some err, s1)"]
  show "filter is_removal (events s1) = filter is_removal (events s3s)"
    by (auto simp: deleteAllObjectsInBucket_def)
next
  fix res s3s'
  assume run: "DeleteBucket env bucketName s3s = Some (res, s3s')"
  then obtain oerr s1 where a: "deleteAllObjectsInBucket env bucketName s3s = Some (oerr, s1)"
    by (cases "deleteAllObjectsInBucket env bucketName s3s") (auto simp: DeleteBucket_def)
  from a deleteAllObjectsInBucket_loop_events[of env bucketName 0 s3s "(oerr, s1)"]
  obtain objs where objs:
    "events s1 = events s3s @ objs" "filter is_removal objs = []"
    "oerr = None \<longrightarrow> listingDone objs \<and> acceptedKeys objs = listedKeys objs"
    by (auto simp: deleteAllObjectsInBucket_def)
  show "\<exists>objs rm. events s3s' = events s3s @ objs @ rm
           \<and> filter is_removal objs = []
           \<and> filter is_object_call rm = []
           \<and> (rm \<noteq> [] \<longrightarrow> listingDone objs \<and> acceptedKeys objs = listedKeys objs)
           \<and> (rm = [] \<longrightarrow> res \<noteq> None)"
  proof (cases oerr)
    case (Some e)
    with run a have "s3s' = s1" "res \<noteq> None" by (auto simp: DeleteBucket_def)
    with objs show ?thesis by (intro exI[of _ objs] exI[of _ "[]"]) simp
  next
    case None
    obtain berr s2 where b: "deleteBucketWithRetry_loop env bucketName 0 None s1 = (berr, s2)"
      by (cases "deleteBucketWithRetry_loop env bucketName 0 None s1")
    from deleteBucketWithRetry_loop_events[OF b] obtain rm where rm:
      "events s2 = events s1 @ rm" "filter is_object_call rm = []" "rm \<noteq> []"
      by auto
    from run a None b have "s3s' = s2"
      by (auto simp: DeleteBucket_def deleteBucketWithRetry_def split: option.splits)
    with objs rm None show ?thesis by (intro exI[of _ objs] exI[of _ rm]) simp
  qed
next
  fix n
  assume "\<forall>h. n \<le> length (pageResults h) \<longrightarrow>
               (case paginator_NextPage env h bucketName of
                  Inl _ \<Rightarrow> True | Inr page \<Rightarrow> \<not> HasMorePages page)"
  then have "\<exists>y. deleteAllObjectsInBucket_loop env bucketName 0 s3s = Some y"
    by (intro deleteAllObjectsInBucket_loop_returns[of n]) simp
  then obtain oerr s1 where "deleteAllObjectsInBucket env bucketName s3s = Some (oerr, s1)"
    by (auto simp: deleteAllObjectsInBucket_def)
  then show "DeleteBucket env bucketName s3s \<noteq> None"
    by (cases oerr; cases "deleteBucketWithRetry env bucketName s1")
       (auto simp: DeleteBucket_def split: option.splits)
qed

lemma DeleteBucket_calls_order_example:
  "(\<exists>err s1. DeleteBucket failingBackend ''b'' newS3Service = Some (Some err, s1)
       \<and> filter is_removal (events s1) = [])
   \<and> (\<exists>s3s' objs rm. DeleteBucket okBackend ''b'' newS3Service = Some (None, s3s')
        \<and> events s3s' = objs @ rm
        \<and> filter is_removal objs = [] \<and> filter is_object_call rm = [] \<and> rm \<noteq> []
        \<and> listingDone objs \<and> acceptedKeys objs = listedKeys objs)
   \<and> DeleteBucket okBackend ''b'' newS3Service \<noteq> None"
proof (intro conjI)
  note fails = DeleteBucket_calls_order
                 [of failingBackend "''b''" newS3Service, THEN conjunct1, rule_format,
                  OF deleteAllObjectsInBucket_failing_example]
  then show "\<exists>err s1. DeleteBucket failingBackend ''b'' newS3Service = Some (Some err, s1)
       \<and> filter is_removal (events s1) = []"
    by (auto simp: newS3Service_def)
next
  from DeleteBucket_ok_example obtain s3s' where
    ok: "DeleteBucket okBackend ''b'' newS3Service = Some (None, s3s')"
    by simp
  from DeleteBucket_calls_order
         [of okBackend "''b''" newS3Service, THEN conjunct2, THEN conjunct1, rule_format,
          OF ok]
  obtain objs rm where run:
    "events s3s' = events newS3Service @ objs @ rm"
    "filter is_removal objs = []" "filter is_object_call rm = []"
    "rm \<noteq> [] \<longrightarrow> listingDone objs \<and> acceptedKeys objs = listedKeys objs"
    "rm = [] \<longrightarrow> (None :: error option) \<noteq> None"
    by blast
  from run(5) have rm: "rm \<noteq> []" by simp
  from run(1) have ev: "events s3s' = objs @ rm" by (simp add: newS3Service_def)
  from rm run(4) have fin: "listingDone objs" and keys: "acceptedKeys objs = listedKeys objs"
    by simp_all
  from ok ev run(2) run(3) rm fin keys
  show "\<exists>s3s' objs rm. DeleteBucket okBackend ''b'' newS3Service = Some (None, s3s')
        \<and> events s3s' = objs @ rm
        \<and> filter is_removal objs = [] \<and> filter is_object_call rm = [] \<and> rm \<noteq> []
        \<and> listingDone objs \<and> acceptedKeys objs = listedKeys objs"
    by blast
next
  have "\<forall>h. 1 \<le> length (pageResults h) \<longrightarrow>
           (case paginator_NextPage okBackend h ''b'' of
              Inl _ \<Rightarrow> True | Inr page \<Rightarrow> \<not> HasMorePages page)"
    by (auto simp: okBackend_def)
  with DeleteBucket_calls_order
         [of okBackend "''b''" newS3Service, THEN conjunct2, THEN conjunct2, rule_format,
          of 1]
  show "DeleteBucket okBackend ''b'' newS3Service \<noteq> None" by blast
qed

section \<open>Properties of the cleansing service\<close>

text \<open>
  C2.  For every cleansing message whose type is not contractor, project or site,
  \<open>ProcessCleansingMessage\<close> returns a result with \<open>Success = false\<close> and
  \<open>FilesDeleted = 0\<close> together with a non-nil error, and makes no call to a repository
  or to the S3 service: the calls made are those made before.
\<close>

theorem ProcessCleansingMessage_invalid_type:
  "CleansingMessage.Type message \<notin> {''contractor'', ''project'', ''site''} \<Longrightarrow>
   \<exists>result err. ProcessCleansingMessage cs message calls = ((result, Some err), calls)
     \<and> Success result = False \<and> FilesDeleted result = 0"
  by (simp add: ProcessCleansingMessage_def IsValidType_def CleansingTypeContractor_def
        CleansingTypeProject_def CleansingTypeSite_def)

theorem ProcessCleansingMessage_invalid_type_witness:
  "\<exists>result err.
     ProcessCleansingMessage okCleansingService
       \<lparr>CleansingMessage.Type = ''bogus'', ID = 1\<rparr> [] = ((result, Some err), [])
     \<and> Success result = False \<and> FilesDeleted result = 0"
  using ProcessCleansingMessage_invalid_type
          [of "\<lparr>CleansingMessage.Type = ''bogus'', ID = 1\<rparr>" okCleansingService "[]"]
  by simp

lemma DeleteContractorFiles_scope:
  "CleansingResult.Type (fst (fst (DeleteContractorFiles cs i calls))) = ''contractor''
   \<and> CleansingResult.ID (fst (fst (DeleteContractorFiles cs i calls))) = i"
  by (simp add: DeleteContractorFiles_def newResult_def CleansingTypeContractor_def Let_def
        split: sum.splits option.splits prod.splits)

lemma DeleteProjectFiles_scope:
  "CleansingResult.Type (fst (fst (DeleteProjectFiles cs i calls))) = ''project''
   \<and> CleansingResult.ID (fst (fst (DeleteProjectFiles cs i calls))) = i"
  by (simp add: DeleteProjectFiles_def newResult_def CleansingTypeProject_def Let_def
        split: sum.splits option.splits prod.splits)

lemma DeleteSiteFiles_scope:
  "CleansingResult.Type (fst (fst (DeleteSiteFiles cs i calls))) = ''site''
   \<and> CleansingResult.ID (fst (fst (DeleteSiteFiles cs i calls))) = i"
  by (simp add: DeleteSiteFiles_def DeleteSiteFiles_cascade_def newResult_def
        CleansingTypeSite_def Let_def
        split: sum.splits option.splits prod.splits)

text \<open>
  C10.  Every result returned by the cleansing service carries the scope of its request:
  the result of \<open>ProcessCleansingMessage\<close> has the message's type and id, on the
  rejection of an invalid type as on every path of the deletion it dispatches to; the
  results of \<open>DeleteContractorFiles\<close>, \<open>DeleteProjectFiles\<close> and \<open>DeleteSiteFiles\<close> have the
  type contractor, project and site and the id they were called with, whatever the
  collaborators answer.
\<close>

theorem CleansingResult_scope:
  "CleansingResult.Type (fst (fst (ProcessCleansingMessage cs message calls)))
     = CleansingMessage.Type message
   \<and> CleansingResult.ID (fst (fst (ProcessCleansingMessage cs message calls)))
     = CleansingMessage.ID message
   \<and> CleansingResult.Type (fst (fst (DeleteContractorFiles cs contractorID calls)))
     = ''contractor''
   \<and> CleansingResult.ID (fst (fst (DeleteContractorFiles cs contractorID calls)))
     = contractorID
   \<and> CleansingResult.Type (fst (fst (DeleteProjectFiles cs projectID calls))) = ''project''
   \<and> CleansingResult.ID (fst (fst (DeleteProjectFiles cs projectID calls))) = projectID
   \<and> CleansingResult.Type (fst (fst (DeleteSiteFiles cs siteID calls))) = ''site''
   \<and> CleansingResult.ID (fst (fst (DeleteSiteFiles cs siteID calls))) = siteID"
  using DeleteContractorFiles_scope DeleteProjectFiles_scope DeleteSiteFiles_scope
  by (simp add: ProcessCleansingMessage_def CleansingTypeContractor_def
        CleansingTypeProject_def CleansingTypeSite_def)



end
